theory Spec2Isabelle
  imports Main "HOL-Library.Sublist" "HOL-Library.Multiset"
begin

section \<open>Data model of the optimizer\<close>

text \<open>
  A shallow embedding of \<^verbatim>\<open>src/optimizer.ts\<close> (the function \<^verbatim>\<open>process\<close> and its helpers)
  and of \<^verbatim>\<open>src/cache/disk.ts\<close>.

  JavaScript values are modelled as follows. A \<^verbatim>\<open>Buffer\<close> is a list of octets (naturals
  below 256). A \<^verbatim>\<open>number\<close> is an \<open>int\<close>: the schema forces \<^verbatim>\<open>w\<close>, \<^verbatim>\<open>h\<close> and
  \<^verbatim>\<open>quality\<close> to be integers, and \<^verbatim>\<open>blur\<close> and \<^verbatim>\<open>rotate\<close> are restricted to integer
  values here. String-literal unions (\<^verbatim>\<open>fit\<close>, \<^verbatim>\<open>format\<close>, \<^verbatim>\<open>crop\<close>, \<^verbatim>\<open>placeholder\<close>)
  stay strings, as they are at run time, so that the schema's enum checks are real checks.
  An optional property is an \<open>option\<close>; \<open>None\<close> is \<^verbatim>\<open>undefined\<close>.
\<close>

type_synonym Buffer = "nat list"

record ProcessResult =
  buffer :: Buffer
  contentType :: string
  etag :: string
  width :: "int option"
  height :: "int option"

text \<open>
  \<^verbatim>\<open>ProcessInput\<close>. The property \<^verbatim>\<open>headers\<close> is left out: \<^verbatim>\<open>process\<close> never reads it and the
  schema strips it. The object the schema returns (\<^verbatim>\<open>parsed\<close>) has the same properties
  without \<^verbatim>\<open>buffer\<close>, so it is a value of the same record with \<open>buffer = None\<close>.
\<close>

record ProcessInput =
  url :: "string option"
  buffer :: "Buffer option"
  w :: "int option"
  h :: "int option"
  fit :: "string option"
  format :: "string option"
  quality :: "int option"
  crop :: "string option"
  bg :: "string option"
  blur :: "int option"
  grayscale :: "bool option"
  rotate :: "int option"
  placeholder :: "string option"

text \<open>\<^verbatim>\<open>OptimizerConfig\<close>; its \<^verbatim>\<open>cache\<close> entry is represented by the cache layer built from it.\<close>

record OptimizerConfig =
  formats :: "string list option"
  maxWidth :: "int option"
  maxHeight :: "int option"
  defaultQuality :: "int option"
  whitelist :: "string list option"

text \<open>
  What \<^verbatim>\<open>process\<close> can throw. The first three are thrown by \<^verbatim>\<open>process\<close> itself; the
  others are rejections of awaited collaborators, which \<^verbatim>\<open>process\<close> never catches.
\<close>

datatype error =
    ZodError
  | NoInputProvided
  | SourceUrlNotAllowed
  | InvalidURL
  | CacheGetRejected
  | FetchRejected
  | SharpRejected
  | CacheSetRejected

text \<open>The \<^verbatim>\<open>statusCode\<close> property attached with \<^verbatim>\<open>Object.assign\<close>, when there is one.\<close>

fun statusCode :: "error \<Rightarrow> int option" where
  "statusCode NoInputProvided = Some 400"
| "statusCode SourceUrlNotAllowed = Some 403"
| "statusCode _ = None"

text \<open>The outcome of an awaited promise of a collaborator.\<close>

datatype 'a settled = Rejected | Fulfilled 'a

subsection \<open>Truthiness\<close>

text \<open>
  JavaScript conditions on optional values: \<^verbatim>\<open>undefined\<close>, \<^verbatim>\<open>0\<close>, the empty string and
  \<^verbatim>\<open>false\<close> are falsy. A \<^verbatim>\<open>Buffer\<close> is an object and always truthy.
\<close>

fun truthyNum :: "int option \<Rightarrow> bool" where
  "truthyNum None = False"
| "truthyNum (Some n) = (n \<noteq> 0)"

fun truthyStr :: "string option \<Rightarrow> bool" where
  "truthyStr None = False"
| "truthyStr (Some s) = (s \<noteq> [])"

fun truthyBool :: "bool option \<Rightarrow> bool" where
  "truthyBool None = False"
| "truthyBool (Some b) = b"

subsection \<open>The collaborators\<close>

text \<open>
  The platform's \<^verbatim>\<open>new URL(s)\<close>: \<open>None\<close> when the constructor throws, else the parts the
  code reads (\<^verbatim>\<open>hostname\<close>, and \<^verbatim>\<open>toString()\<close>, which is \<^verbatim>\<open>href\<close>).
\<close>

record URL =
  hostname :: string
  href :: string

text \<open>
  The calls made on a \<^verbatim>\<open>Sharp\<close> instance, in call order. \<open>Resize\<close> carries
  \<^verbatim>\<open>width\<close>, \<^verbatim>\<open>height\<close>, \<^verbatim>\<open>fit\<close> and \<^verbatim>\<open>position\<close>; the encoders carry the quality.
\<close>

datatype SharpOp =
    Resize "int option" "int option" "string option" "string option"
  | Flatten string
  | BlurOp int
  | Grayscale
  | Rotate int
  | Webp int
  | Avif int
  | Jpeg int
  | Png int

text \<open>The object \<^verbatim>\<open>toBuffer({ resolveWithObject: true })\<close> resolves to.\<close>

record SharpOutput =
  data :: Buffer
  info_format :: string
  info_width :: int
  info_height :: int

text \<open>
  Everything \<^verbatim>\<open>process\<close> gets from outside the repository:
  \<^item> \<open>newURL\<close>: the URL constructor;
  \<^item> \<open>fetchImage\<close>: the buffer \<^verbatim>\<open>got\<close> resolves to, \<open>Rejected\<close> when the request fails;
  \<^item> \<open>toBuffer\<close>: the transform engine, run on the source bytes with the recorded calls;
  \<^item> \<open>defaultInsideOptional\<close>: what the schema library does with
    \<^verbatim>\<open>.default("center").optional()\<close> on an absent key. zod 3 returns \<^verbatim>\<open>undefined\<close>
    (\<^verbatim>\<open>ZodOptional\<close> answers an absent input itself, the inner default is never
    consulted): \<open>False\<close>. zod 4 applies the inner default: \<open>True\<close>. The dependency
    version is fixed by a manifest that is not among the sources, so it is a parameter.
\<close>

record Env =
  newURL :: "string \<Rightarrow> URL option"
  fetchImage :: "string \<Rightarrow> Buffer settled"
  toBuffer :: "Buffer \<Rightarrow> SharpOp list \<Rightarrow> SharpOutput settled"
  defaultInsideOptional :: bool

text \<open>
  \<^verbatim>\<open>CacheLayer\<close> (\<^verbatim>\<open>src/cache/index.ts\<close>): \<^verbatim>\<open>get\<close> and \<^verbatim>\<open>set\<close> over the backend's state
  \<open>'c\<close>. \<open>Fulfilled None\<close> is \<^verbatim>\<open>null\<close>.
\<close>

record 'c CacheLayer =
  cache_get :: "string \<Rightarrow> 'c \<Rightarrow> ProcessResult option settled \<times> 'c"
  cache_set :: "string \<Rightarrow> ProcessResult \<Rightarrow> 'c \<Rightarrow> unit settled \<times> 'c"

text \<open>
  The state a call of \<^verbatim>\<open>process\<close> runs in: the cache backend's state, and a log of the
  calls made to the fetcher and to the transform engine.
\<close>

record 'c World =
  cacheState :: 'c
  fetchCalls :: "string list"
  sharpCalls :: "(Buffer \<times> SharpOp list) list"

section \<open>Rendering numbers and JSON\<close>

definition digitChar :: "nat \<Rightarrow> char" where
  "digitChar d = (''0123456789abcdef'') ! d"

text \<open>\<^verbatim>\<open>Number.prototype.toString(radix)\<close> on a non-negative integer, for radix 10 and 16.\<close>

fun natToString :: "nat \<Rightarrow> nat \<Rightarrow> string" where
  "natToString radix n =
     (if radix < 2 \<or> n < radix then [digitChar n]
      else natToString radix (n div radix) @ [digitChar (n mod radix)])"

declare natToString.simps [simp del]

definition numberToString :: "int \<Rightarrow> string" where
  "numberToString n =
     (if n < 0 then CHR ''-'' # natToString 10 (nat (- n)) else natToString 10 (nat n))"

text \<open>
  \<^verbatim>\<open>JSON.stringify\<close> on a flat object whose property values are strings, numbers,
  booleans or \<^verbatim>\<open>undefined\<close>. Properties are written in the object's own order, a
  property whose value is \<^verbatim>\<open>undefined\<close> is left out, and strings are quoted with the
  escapes of ECMAScript's \<^verbatim>\<open>QuoteJSONString\<close>. Characters are code units below 256, and
  numbers are integers of magnitude below \<open>10\<^sup>2\<^sup>1\<close>, which JavaScript prints in plain
  decimal.
\<close>

datatype JSON = JString string | JNumber int | JBool bool

definition quoteChar :: "char \<Rightarrow> string" where
  "quoteChar c =
     (if c = CHR 0x22 then [CHR 0x5C, CHR 0x22]
      else if c = CHR 0x5C then [CHR 0x5C, CHR 0x5C]
      else if c = CHR 0x08 then [CHR 0x5C, CHR ''b'']
      else if c = CHR 0x09 then [CHR 0x5C, CHR ''t'']
      else if c = CHR 0x0A then [CHR 0x5C, CHR ''n'']
      else if c = CHR 0x0C then [CHR 0x5C, CHR ''f'']
      else if c = CHR 0x0D then [CHR 0x5C, CHR ''r'']
      else if (of_char c :: nat) < 32
        then [CHR 0x5C, CHR ''u'', CHR ''0'', CHR ''0'',
              digitChar (of_char c div 16), digitChar (of_char c mod 16)]
      else [c])"

definition quoteJSONString :: "string \<Rightarrow> string" where
  "quoteJSONString s = [CHR 0x22] @ concat (map quoteChar s) @ [CHR 0x22]"

fun serializeJSON :: "JSON \<Rightarrow> string" where
  "serializeJSON (JString s) = quoteJSONString s"
| "serializeJSON (JNumber n) = numberToString n"
| "serializeJSON (JBool b) = (if b then ''true'' else ''false'')"

fun serializeProperties :: "(string \<times> JSON option) list \<Rightarrow> string list" where
  "serializeProperties [] = []"
| "serializeProperties ((k, None) # ps) = serializeProperties ps"
| "serializeProperties ((k, Some v) # ps) =
     (quoteJSONString k @ '':'' @ serializeJSON v) # serializeProperties ps"

fun joinWith :: "string \<Rightarrow> string list \<Rightarrow> string" where
  "joinWith sep [] = []"
| "joinWith sep [x] = x"
| "joinWith sep (x # y # ys) = x @ sep @ joinWith sep (y # ys)"

definition JSON_stringify :: "(string \<times> JSON option) list \<Rightarrow> string" where
  "JSON_stringify ps = ''{'' @ joinWith '','' (serializeProperties ps) @ ''}''"

section \<open>The request schema\<close>

text \<open>
  \<^verbatim>\<open>querySchema.partial({ url: true }).parse(input)\<close>. Every property is optional; a
  present property must pass its check, else \<^verbatim>\<open>parse\<close> throws. The coercions
  (\<^verbatim>\<open>z.coerce\<close>) are the identity on the typed values of \<^verbatim>\<open>ProcessInput\<close>, and
  \<^verbatim>\<open>.int()\<close> holds of every \<open>int\<close>. \<^verbatim>\<open>z.string().url()\<close> accepts what \<^verbatim>\<open>new URL\<close> accepts.
  Unknown keys (\<^verbatim>\<open>buffer\<close>) are stripped from the result.
\<close>

definition inEnum :: "string list \<Rightarrow> string option \<Rightarrow> bool" where
  "inEnum allowed x = (case x of None \<Rightarrow> True | Some s \<Rightarrow> s \<in> set allowed)"

definition inRange :: "int \<Rightarrow> int \<Rightarrow> int option \<Rightarrow> bool" where
  "inRange lo hi x = (case x of None \<Rightarrow> True | Some n \<Rightarrow> lo \<le> n \<and> n \<le> hi)"

definition querySchema_valid :: "Env \<Rightarrow> ProcessInput \<Rightarrow> bool" where
  "querySchema_valid env input =
     ((case url input of None \<Rightarrow> True | Some u \<Rightarrow> newURL env u \<noteq> None)
      \<and> inRange 1 10000 (w input)
      \<and> inRange 1 10000 (h input)
      \<and> inEnum [''cover'', ''contain'', ''fill'', ''inside'', ''outside'', ''crop''] (fit input)
      \<and> inEnum [''webp'', ''avif'', ''jpeg'', ''png''] (format input)
      \<and> inRange 1 100 (quality input)
      \<and> inEnum [''smart'', ''center''] (crop input)
      \<and> inRange 0 100 (blur input)
      \<and> inEnum [''blur'', ''none''] (placeholder input))"

definition querySchema_parse :: "Env \<Rightarrow> ProcessInput \<Rightarrow> error + ProcessInput" where
  "querySchema_parse env input =
     (if querySchema_valid env input
      then Inr \<lparr>url = url input,
                buffer = None,
                w = w input,
                h = h input,
                fit = Some (case fit input of None \<Rightarrow> ''cover'' | Some f \<Rightarrow> f),
                format = format input,
                quality = quality input,
                crop = (case crop input of
                          None \<Rightarrow> if defaultInsideOptional env then Some ''center'' else None
                        | Some c \<Rightarrow> Some c),
                bg = bg input,
                blur = blur input,
                grayscale = grayscale input,
                rotate = rotate input,
                placeholder = placeholder input\<rparr>
      else Inl ZodError)"

section \<open>The helpers of \<^verbatim>\<open>process\<close>\<close>

text \<open>\<^verbatim>\<open>createEtag\<close>: the byte length in hexadecimal and the sum of the first 64 bytes.\<close>

definition createEtag :: "Buffer \<Rightarrow> string" where
  "createEtag bytes =
     ''W/'' @ [CHR 0x22] @ natToString 16 (length bytes) @ ''-''
       @ natToString 10 (foldl (\<lambda>a b. (a + b) mod 65536) 0 (take 64 bytes)) @ [CHR 0x22]"

text \<open>\<^verbatim>\<open>buildSharpPipeline\<close>: the calls made on the \<^verbatim>\<open>Sharp\<close> instance, in order.\<close>

definition buildSharpPipeline :: "ProcessInput \<Rightarrow> SharpOp list" where
  "buildSharpPipeline params =
     (if truthyNum (w params) \<or> truthyNum (h params)
      then [Resize (w params) (h params)
              (map_option (\<lambda>f. if f = ''crop'' then ''cover'' else f) (fit params))
              (Some (if crop params = Some ''center'' then ''centre'' else ''attention''))]
      else [])
     @ (case bg params of Some c \<Rightarrow> if c \<noteq> [] then [Flatten c] else [] | None \<Rightarrow> [])
     @ (case blur params of Some b \<Rightarrow> if b \<noteq> 0 then [BlurOp b] else [] | None \<Rightarrow> [])
     @ (if truthyBool (grayscale params) then [Grayscale] else [])
     @ (case rotate params of Some r \<Rightarrow> if r \<noteq> 0 then [Rotate r] else [] | None \<Rightarrow> [])"

definition formatToContentType :: "string option \<Rightarrow> string" where
  "formatToContentType f =
     (if f = Some ''webp'' then ''image/webp''
      else if f = Some ''avif'' then ''image/avif''
      else if f = Some ''jpeg'' then ''image/jpeg''
      else if f = Some ''png'' then ''image/png''
      else ''application/octet-stream'')"

text \<open>The closure variables of \<^verbatim>\<open>createImageOptimizer\<close>.\<close>

definition allowedFormats :: "OptimizerConfig \<Rightarrow> string set" where
  "allowedFormats config =
     set (case formats config of
            None \<Rightarrow> [''webp'', ''avif'', ''jpeg'', ''png'']
          | Some fs \<Rightarrow> fs)"

definition defaultQualityOf :: "OptimizerConfig \<Rightarrow> int" where
  "defaultQualityOf config = (case defaultQuality config of None \<Rightarrow> 80 | Some q \<Rightarrow> q)"

text \<open>
  The allowlist test of \<^verbatim>\<open>process\<close>:
  \<^verbatim>\<open>config.whitelist.some((d) => { try { return new URL(url).hostname.endsWith(d) } catch { return false } })\<close>.
\<close>

definition endsWith :: "string \<Rightarrow> string \<Rightarrow> bool" where
  "endsWith s d = suffix d s"

definition allowed :: "Env \<Rightarrow> string list \<Rightarrow> string \<Rightarrow> bool" where
  "allowed env domains u =
     list_ex (\<lambda>d. case newURL env u of None \<Rightarrow> False | Some parsedUrl \<Rightarrow> endsWith (hostname parsedUrl) d)
       domains"

text \<open>\<^verbatim>\<open>config.whitelist && parsed.url\<close> holds and no entry of the allowlist matches.\<close>

definition notAllowed :: "OptimizerConfig \<Rightarrow> Env \<Rightarrow> ProcessInput \<Rightarrow> bool" where
  "notAllowed config env parsed =
     (case whitelist config of
        None \<Rightarrow> False
      | Some domains \<Rightarrow>
          (case url parsed of
             None \<Rightarrow> False
           | Some u \<Rightarrow> u \<noteq> [] \<and> \<not> allowed env domains u))"

text \<open>
  \<^verbatim>\<open>if (config.maxWidth && input.w && input.w > config.maxWidth) input.w = config.maxWidth\<close>,
  and the same for the height. The assignment is to the caller's object \<^verbatim>\<open>input\<close>.
\<close>

definition enforceMax :: "int option \<Rightarrow> int option \<Rightarrow> int option" where
  "enforceMax limit requested =
     (case (limit, requested) of
        (Some m, Some n) \<Rightarrow> if m \<noteq> 0 \<and> n \<noteq> 0 \<and> n > m then Some m else Some n
      | (_, r) \<Rightarrow> r)"

definition enforceMaxDimensions :: "OptimizerConfig \<Rightarrow> ProcessInput \<Rightarrow> ProcessInput" where
  "enforceMaxDimensions config input =
     input\<lparr>w := enforceMax (maxWidth config) (w input),
           h := enforceMax (maxHeight config) (h input)\<rparr>"

text \<open>
  The cache key: \<^verbatim>\<open>JSON.stringify\<close> of an object literal whose properties are written
  in the order u, w, h, fit, f, q, c, bg, bl, gs, r, p, all read from \<^verbatim>\<open>parsed\<close>.
  \<open>None\<close> when \<^verbatim>\<open>new URL\<close> throws.
\<close>

definition sourceIdentity :: "Env \<Rightarrow> ProcessInput \<Rightarrow> string option" where
  "sourceIdentity env parsed =
     (if truthyStr (url parsed)
      then (case url parsed of Some u \<Rightarrow> map_option href (newURL env u) | None \<Rightarrow> None)
      else Some ''buffer'')"

definition keyProperties :: "OptimizerConfig \<Rightarrow> string \<Rightarrow> 'a ProcessInput_scheme \<Rightarrow> (string \<times> JSON option) list" where
  "keyProperties config u parsed =
     [(''u'', Some (JString u)),
      (''w'', map_option JNumber (w parsed)),
      (''h'', map_option JNumber (h parsed)),
      (''fit'', map_option JString (fit parsed)),
      (''f'', map_option JString (format parsed)),
      (''q'', Some (JNumber (case quality parsed of None \<Rightarrow> defaultQualityOf config | Some q \<Rightarrow> q))),
      (''c'', map_option JString (crop parsed)),
      (''bg'', map_option JString (bg parsed)),
      (''bl'', map_option JNumber (blur parsed)),
      (''gs'', map_option JBool (grayscale parsed)),
      (''r'', map_option JNumber (rotate parsed)),
      (''p'', map_option JString (placeholder parsed))]"

definition cacheKey :: "OptimizerConfig \<Rightarrow> Env \<Rightarrow> ProcessInput \<Rightarrow> string option" where
  "cacheKey config env parsed =
     map_option (\<lambda>u. JSON_stringify (keyProperties config u parsed)) (sourceIdentity env parsed)"

text \<open>
  The format that is encoded: the requested one when it is in the allowed set, else
  \<^verbatim>\<open>undefined\<close>.
\<close>

definition selectedFormat :: "OptimizerConfig \<Rightarrow> ProcessInput \<Rightarrow> string option" where
  "selectedFormat config parsed =
     (case format parsed of
        Some f \<Rightarrow> if f \<noteq> [] \<and> f \<in> allowedFormats config then Some f else None
      | None \<Rightarrow> None)"

definition encodeCalls :: "string option \<Rightarrow> int \<Rightarrow> SharpOp list" where
  "encodeCalls f q =
     (if f = Some ''webp'' then [Webp q]
      else if f = Some ''avif'' then [Avif q]
      else if f = Some ''jpeg'' then [Jpeg q]
      else if f = Some ''png'' then [Png q]
      else [])"

text \<open>All calls on the \<^verbatim>\<open>Sharp\<close> instance between \<^verbatim>\<open>sharp(sourceBuffer)\<close> and \<^verbatim>\<open>toBuffer\<close>.\<close>

definition sharpPipeline :: "OptimizerConfig \<Rightarrow> ProcessInput \<Rightarrow> SharpOp list" where
  "sharpPipeline config parsed =
     buildSharpPipeline
       (parsed\<lparr>fit := Some (case fit parsed of None \<Rightarrow> ''cover'' | Some f \<Rightarrow> f)\<rparr>)
     @ (if placeholder parsed = Some ''blur'' then [Resize (Some 10) None None None, BlurOp 10] else [])
     @ encodeCalls (selectedFormat config parsed)
         (case quality parsed of None \<Rightarrow> defaultQualityOf config | Some q \<Rightarrow> q)"

definition assembleResult :: "string option \<Rightarrow> SharpOutput \<Rightarrow> ProcessResult" where
  "assembleResult f output =
     \<lparr>ProcessResult.buffer = data output,
      contentType =
        (if f \<noteq> None then formatToContentType f
         else if info_format output \<noteq> [] then formatToContentType (Some (info_format output))
         else ''application/octet-stream''),
      etag = createEtag (data output),
      width = Some (info_width output),
      height = Some (info_height output)\<rparr>"

section \<open>\<^verbatim>\<open>process\<close>\<close>

text \<open>\<^verbatim>\<open>if (cache) { const cached = await cache.get(cacheKey); ... }\<close>\<close>

definition lookup :: "'c CacheLayer option \<Rightarrow> string \<Rightarrow> 'c World \<Rightarrow> ProcessResult option settled \<times> 'c World" where
  "lookup cache key world =
     (case cache of
        None \<Rightarrow> (Fulfilled None, world)
      | Some layer \<Rightarrow>
          (case cache_get layer key (cacheState world) of
             (answer, st) \<Rightarrow> (answer, world\<lparr>cacheState := st\<rparr>)))"

text \<open>\<^verbatim>\<open>if (cache) await cache.set(cacheKey, result)\<close>\<close>

definition store :: "'c CacheLayer option \<Rightarrow> string \<Rightarrow> ProcessResult \<Rightarrow> 'c World \<Rightarrow> unit settled \<times> 'c World" where
  "store cache key result world =
     (case cache of
        None \<Rightarrow> (Fulfilled (), world)
      | Some layer \<Rightarrow>
          (case cache_set layer key result (cacheState world) of
             (answer, st) \<Rightarrow> (answer, world\<lparr>cacheState := st\<rparr>)))"

text \<open>
  The source bytes: the supplied buffer, else the fetched one. The fetcher is called
  only when no buffer was supplied.
\<close>

definition obtainSource :: "Env \<Rightarrow> ProcessInput \<Rightarrow> ProcessInput \<Rightarrow> 'c World \<Rightarrow> Buffer settled \<times> 'c World" where
  "obtainSource env input parsed world =
     (case buffer input of
        Some b \<Rightarrow> (Fulfilled b, world)
      | None \<Rightarrow>
          (case url parsed of
             Some u \<Rightarrow> (fetchImage env u, world\<lparr>fetchCalls := fetchCalls world @ [u]\<rparr>)
           | None \<Rightarrow> (Rejected, world)))"

text \<open>The part of \<^verbatim>\<open>process\<close> after a cache miss.\<close>

definition transformAndStore ::
  "OptimizerConfig \<Rightarrow> 'c CacheLayer option \<Rightarrow> Env \<Rightarrow> ProcessInput \<Rightarrow> ProcessInput \<Rightarrow> string \<Rightarrow> 'c World
     \<Rightarrow> (error + ProcessResult) \<times> 'c World" where
  "transformAndStore config cache env input parsed key world =
     (case obtainSource env input parsed world of
        (Rejected, world1) \<Rightarrow> (Inl FetchRejected, world1)
      | (Fulfilled sourceBuffer, world1) \<Rightarrow>
          (let calls = sharpPipeline config parsed;
               world2 = world1\<lparr>sharpCalls := sharpCalls world1 @ [(sourceBuffer, calls)]\<rparr>
           in case toBuffer env sourceBuffer calls of
                Rejected \<Rightarrow> (Inl SharpRejected, world2)
              | Fulfilled output \<Rightarrow>
                  (let result = assembleResult (selectedFormat config parsed) output
                   in case store cache key result world2 of
                        (Rejected, world3) \<Rightarrow> (Inl CacheSetRejected, world3)
                      | (Fulfilled _, world3) \<Rightarrow> (Inr result, world3))))"

text \<open>
  \<^verbatim>\<open>process\<close>, statement by statement. \<open>parsed\<close> is computed first, from the input as
  it was passed; the maxima are then written to \<open>input\<close>; everything after reads
  \<open>parsed\<close>, except the source buffer, which is read from \<open>input\<close>.
\<close>

definition process ::
  "OptimizerConfig \<Rightarrow> 'c CacheLayer option \<Rightarrow> Env \<Rightarrow> ProcessInput \<Rightarrow> 'c World
     \<Rightarrow> (error + ProcessResult) \<times> 'c World" where
  "process config cache env input world =
     (case querySchema_parse env input of
        Inl e \<Rightarrow> (Inl e, world)
      | Inr parsed \<Rightarrow>
          if buffer input = None \<and> \<not> truthyStr (url parsed) then (Inl NoInputProvided, world)
          else if notAllowed config env parsed then (Inl SourceUrlNotAllowed, world)
          else
            (let input1 = enforceMaxDimensions config input
             in case cacheKey config env parsed of
                  None \<Rightarrow> (Inl InvalidURL, world)
                | Some key \<Rightarrow>
                    (case lookup cache key world of
                       (Rejected, world1) \<Rightarrow> (Inl CacheGetRejected, world1)
                     | (Fulfilled (Some cached), world1) \<Rightarrow> (Inr cached, world1)
                     | (Fulfilled None, world1) \<Rightarrow>
                         transformAndStore config cache env input1 parsed key world1)))"

text \<open>
  The caller's object once \<^verbatim>\<open>process\<close> has settled: the maxima are written to it when
  \<^verbatim>\<open>process\<close> gets past its first three \<^verbatim>\<open>throw\<close> statements.
\<close>

definition inputAfterProcess :: "OptimizerConfig \<Rightarrow> Env \<Rightarrow> ProcessInput \<Rightarrow> ProcessInput" where
  "inputAfterProcess config env input =
     (case querySchema_parse env input of
        Inl e \<Rightarrow> input
      | Inr parsed \<Rightarrow>
          if buffer input = None \<and> \<not> truthyStr (url parsed) then input
          else if notAllowed config env parsed then input
          else enforceMaxDimensions config input)"

section \<open>The disk cache\<close>

text \<open>
  \<^verbatim>\<open>src/cache/disk.ts\<close>. A file of the cache directory holds the JSON text of a
  \<^verbatim>\<open>CacheRecord\<close>; the model keeps what reading it gives: \<open>Unreadable\<close> when
  \<^verbatim>\<open>fs.readFile\<close> rejects on an existing file, \<open>Malformed\<close> when \<^verbatim>\<open>JSON.parse\<close> throws on
  its text, else the record. The payload's base64 text stands for the bytes it decodes
  to. A path that is not in \<open>files\<close> does not exist.
  The file system can refuse a call: \<open>mkdirRejects\<close> (\<^verbatim>\<open>fs.mkdir\<close> of the cache
  directory), \<open>rmRejects\<close> (\<^verbatim>\<open>fs.rm\<close>) and \<open>writeFileRejects\<close> (\<^verbatim>\<open>fs.writeFile\<close>).
  \<open>now\<close> is \<^verbatim>\<open>Date.now()\<close>, in milliseconds.
\<close>

record CacheRecord =
  rec_value :: ProcessResult
  expiresAt :: "int option"

datatype FileContent = Unreadable | Malformed | Stored CacheRecord

record Disk =
  files :: "string \<rightharpoonup> FileContent"
  now :: int
  mkdirRejects :: bool
  rmRejects :: bool
  writeFileRejects :: bool

record CacheConfig =
  path :: "string option"
  ttl :: "int option"

text \<open>
  \<^verbatim>\<open>fileForKey\<close>: the SHA-1 digest of the key, in hexadecimal, as a file name in the
  cache directory. The digest function is a parameter.
\<close>

definition fileForKey :: "(string \<Rightarrow> string) \<Rightarrow> CacheConfig \<Rightarrow> string \<Rightarrow> string" where
  "fileForKey sha1 cfg key =
     (case path cfg of None \<Rightarrow> ''.cache/images'' | Some d \<Rightarrow> d) @ ''/'' @ sha1 key @ ''.json''"

definition ttlMs :: "CacheConfig \<Rightarrow> int option" where
  "ttlMs cfg = (case ttl cfg of None \<Rightarrow> None | Some t \<Rightarrow> if t \<noteq> 0 then Some (t * 1000) else None)"

text \<open>\<^verbatim>\<open>rec.expiresAt && Date.now() > rec.expiresAt\<close>\<close>

definition expired :: "int \<Rightarrow> int option \<Rightarrow> bool" where
  "expired t e = (case e of None \<Rightarrow> False | Some x \<Rightarrow> x \<noteq> 0 \<and> t > x)"

text \<open>
  \<^verbatim>\<open>get\<close>: \<^verbatim>\<open>ensureDir\<close> is awaited before the \<^verbatim>\<open>try\<close> block, so its rejection rejects
  \<^verbatim>\<open>get\<close>; everything else is inside \<^verbatim>\<open>try\<close>, whose \<^verbatim>\<open>catch\<close> returns \<^verbatim>\<open>null\<close>. A failing
  \<^verbatim>\<open>fs.rm\<close> is ignored (\<^verbatim>\<open>.catch(() => {})\<close>).
\<close>

definition disk_get :: "(string \<Rightarrow> string) \<Rightarrow> CacheConfig \<Rightarrow> string \<Rightarrow> Disk \<Rightarrow> ProcessResult option settled \<times> Disk" where
  "disk_get sha1 cfg key disk =
     (if mkdirRejects disk then (Rejected, disk)
      else
        (let file = fileForKey sha1 cfg key
         in case files disk file of
              None \<Rightarrow> (Fulfilled None, disk)
            | Some Unreadable \<Rightarrow> (Fulfilled None, disk)
            | Some Malformed \<Rightarrow> (Fulfilled None, disk)
            | Some (Stored r) \<Rightarrow>
                if expired (now disk) (expiresAt r)
                then (Fulfilled None,
                      if rmRejects disk then disk else disk\<lparr>files := (files disk)(file := None)\<rparr>)
                else (Fulfilled (Some (rec_value r)), disk)))"

text \<open>\<^verbatim>\<open>set\<close>: nothing is caught.\<close>

definition disk_set :: "(string \<Rightarrow> string) \<Rightarrow> CacheConfig \<Rightarrow> string \<Rightarrow> ProcessResult \<Rightarrow> Disk \<Rightarrow> unit settled \<times> Disk" where
  "disk_set sha1 cfg key result disk =
     (if mkdirRejects disk then (Rejected, disk)
      else
        (let file = fileForKey sha1 cfg key;
             r = \<lparr>rec_value = result, expiresAt = map_option (\<lambda>t. now disk + t) (ttlMs cfg)\<rparr>
         in if writeFileRejects disk then (Rejected, disk)
            else (Fulfilled (), disk\<lparr>files := (files disk)(file \<mapsto> Stored r)\<rparr>)))"

definition createDiskCache :: "(string \<Rightarrow> string) \<Rightarrow> CacheConfig \<Rightarrow> Disk CacheLayer" where
  "createDiskCache sha1 cfg = \<lparr>cache_get = disk_get sha1 cfg, cache_set = disk_set sha1 cfg\<rparr>"

section \<open>The key of a request, and example collaborators\<close>

text \<open>The cache key \<^verbatim>\<open>process\<close> computes for an input: the key of what the schema returns.\<close>

definition requestKey :: "OptimizerConfig \<Rightarrow> Env \<Rightarrow> ProcessInput \<Rightarrow> string option" where
  "requestKey config env input =
     (case querySchema_parse env input of Inl e \<Rightarrow> None | Inr parsed \<Rightarrow> cacheKey config env parsed)"

text \<open>
  Concrete collaborators for the examples below. The engine echoes the source bytes as a
  PNG whose width is the width of the last \<^verbatim>\<open>resize\<close> call (10 when there is none); the
  URL constructor knows two URLs; the digest is the identity.
\<close>

fun resizedWidth :: "int \<Rightarrow> SharpOp list \<Rightarrow> int" where
  "resizedWidth cur [] = cur"
| "resizedWidth cur (Resize (Some n) hh f p # calls) = resizedWidth n calls"
| "resizedWidth cur (c # calls) = resizedWidth cur calls"

definition exampleEnv :: "bool \<Rightarrow> Env" where
  "exampleEnv z =
     \<lparr>newURL = map_of
        [(''https://cdn.example.com/x.png'',
            \<lparr>hostname = ''cdn.example.com'', href = ''https://cdn.example.com/x.png''\<rparr>),
         (''https://evil.com/x.png'',
            \<lparr>hostname = ''evil.com'', href = ''https://evil.com/x.png''\<rparr>)],
      fetchImage = (\<lambda>u. Fulfilled [7, 7, 7]),
      toBuffer = (\<lambda>src calls. Fulfilled
         \<lparr>data = src, info_format = ''png'', info_width = resizedWidth 10 calls, info_height = 10\<rparr>),
      defaultInsideOptional = z\<rparr>"

definition emptyInput :: ProcessInput where
  "emptyInput =
     \<lparr>url = None, buffer = None, w = None, h = None, fit = None, format = None,
      quality = None, crop = None, bg = None, blur = None, grayscale = None, rotate = None,
      placeholder = None\<rparr>"

definition emptyConfig :: OptimizerConfig where
  "emptyConfig =
     \<lparr>formats = None, maxWidth = None, maxHeight = None, defaultQuality = None, whitelist = None\<rparr>"

definition emptyWorld :: "'c \<Rightarrow> 'c World" where
  "emptyWorld c = \<lparr>cacheState = c, fetchCalls = [], sharpCalls = []\<rparr>"

definition exampleDisk :: Disk where
  "exampleDisk =
     \<lparr>files = Map.empty, now = 1000, mkdirRejects = False, rmRejects = False,
      writeFileRejects = False\<rparr>"

definition exampleCacheConfig :: CacheConfig where
  "exampleCacheConfig = \<lparr>path = Some ''c'', ttl = Some 60\<rparr>"

definition exampleDigest :: "string \<Rightarrow> string" where
  "exampleDigest key = key"

text \<open>The result of the example engine on the bytes 1, 2, 3, and the disk once it is stored.\<close>

definition exampleResult :: ProcessResult where
  \<open>exampleResult =
     \<lparr>ProcessResult.buffer = [1, 2, 3], contentType = ''image/png'', etag = ''W/"3-6"'',
      width = Some 10, height = Some 10\<rparr>\<close>

definition diskAfterFirstCall :: Disk where
  \<open>diskAfterFirstCall =
     exampleDisk\<lparr>files :=
       [''c/{"u":"buffer","fit":"cover","q":80}.json'' \<mapsto>
          Stored \<lparr>rec_value = exampleResult, expiresAt = Some 61000\<rparr>]\<rparr>\<close>

text \<open>A record that expired at time 500.\<close>

definition expiredRecord :: CacheRecord where
  "expiredRecord =
     \<lparr>rec_value = \<lparr>ProcessResult.buffer = [1], contentType = ''image/png'', etag = ''e'',
                    width = Some 1, height = Some 1\<rparr>,
      expiresAt = Some 500\<rparr>"

section \<open>Object literals\<close>

text \<open>
  A JavaScript object keeps its properties in the order in which they were defined, and
  \<^verbatim>\<open>JSON.stringify\<close> writes them in that order. A caller's \<^verbatim>\<open>ProcessInput\<close> literal is a
  sequence of property definitions; defining a property that is already there overwrites
  its value. \<open>objectLiteral\<close> is the object a sequence of definitions builds.
\<close>

datatype Property =
    P_url string
  | P_buffer Buffer
  | P_w int
  | P_h int
  | P_fit string
  | P_format string
  | P_quality int
  | P_crop string
  | P_bg string
  | P_blur int
  | P_grayscale bool
  | P_rotate int
  | P_placeholder string

fun propertyName :: "Property \<Rightarrow> string" where
  "propertyName (P_url v) = ''url''"
| "propertyName (P_buffer v) = ''buffer''"
| "propertyName (P_w v) = ''w''"
| "propertyName (P_h v) = ''h''"
| "propertyName (P_fit v) = ''fit''"
| "propertyName (P_format v) = ''format''"
| "propertyName (P_quality v) = ''quality''"
| "propertyName (P_crop v) = ''crop''"
| "propertyName (P_bg v) = ''bg''"
| "propertyName (P_blur v) = ''blur''"
| "propertyName (P_grayscale v) = ''grayscale''"
| "propertyName (P_rotate v) = ''rotate''"
| "propertyName (P_placeholder v) = ''placeholder''"

fun defineProperty :: "Property \<Rightarrow> ProcessInput \<Rightarrow> ProcessInput" where
  "defineProperty (P_url v) obj = obj\<lparr>url := Some v\<rparr>"
| "defineProperty (P_buffer v) obj = obj\<lparr>buffer := Some v\<rparr>"
| "defineProperty (P_w v) obj = obj\<lparr>w := Some v\<rparr>"
| "defineProperty (P_h v) obj = obj\<lparr>h := Some v\<rparr>"
| "defineProperty (P_fit v) obj = obj\<lparr>fit := Some v\<rparr>"
| "defineProperty (P_format v) obj = obj\<lparr>format := Some v\<rparr>"
| "defineProperty (P_quality v) obj = obj\<lparr>quality := Some v\<rparr>"
| "defineProperty (P_crop v) obj = obj\<lparr>crop := Some v\<rparr>"
| "defineProperty (P_bg v) obj = obj\<lparr>bg := Some v\<rparr>"
| "defineProperty (P_blur v) obj = obj\<lparr>blur := Some v\<rparr>"
| "defineProperty (P_grayscale v) obj = obj\<lparr>grayscale := Some v\<rparr>"
| "defineProperty (P_rotate v) obj = obj\<lparr>rotate := Some v\<rparr>"
| "defineProperty (P_placeholder v) obj = obj\<lparr>placeholder := Some v\<rparr>"

definition objectLiteral :: "Property list \<Rightarrow> ProcessInput" where
  "objectLiteral ps = fold defineProperty ps emptyInput"

section \<open>Reading a key back\<close>

text \<open>
  \<^verbatim>\<open>JSON.parse\<close> on the text \<^verbatim>\<open>JSON.stringify\<close> writes for a flat object: the properties
  that are present, in the order of the text, with their values. It is used to state
  what a cache key holds. \<open>present\<close> drops the properties whose value is \<^verbatim>\<open>undefined\<close>,
  and \<open>member\<close> is the text of one property.
\<close>

definition isDigit :: "char \<Rightarrow> bool" where
  "isDigit c = (c \<in> set ''0123456789'')"

text \<open>The value of a digit: its position among the digits, as \<open>digitChar\<close> numbers them.\<close>

definition hexVal :: "char \<Rightarrow> nat" where
  "hexVal c = length (takeWhile (\<lambda>d. d \<noteq> c) ''0123456789abcdef'')"

definition unescape :: "char \<Rightarrow> char" where
  "unescape c =
     (if c = CHR ''b'' then CHR 0x08
      else if c = CHR ''t'' then CHR 0x09
      else if c = CHR ''n'' then CHR 0x0A
      else if c = CHR ''f'' then CHR 0x0C
      else if c = CHR ''r'' then CHR 0x0D
      else c)"

fun readString :: "string \<Rightarrow> (string \<times> string) option" where
  "readString [] = None"
| "readString (c # cs) =
     (if c = CHR 0x22 then Some ([], cs)
      else if c = CHR 0x5C then
        (case cs of
           [] \<Rightarrow> None
         | e # es \<Rightarrow>
             if e = CHR ''u'' then
               (case es of
                  a # b # x # y # rest \<Rightarrow>
                    (case readString rest of
                       None \<Rightarrow> None
                     | Some (s, r) \<Rightarrow> Some (char_of (hexVal x * 16 + hexVal y) # s, r))
                | _ \<Rightarrow> None)
             else
               (case readString es of
                  None \<Rightarrow> None
                | Some (s, r) \<Rightarrow> Some (unescape e # s, r)))
      else
        (case readString cs of
           None \<Rightarrow> None
         | Some (s, r) \<Rightarrow> Some (c # s, r)))"

fun readDigits :: "nat \<Rightarrow> string \<Rightarrow> nat \<times> string" where
  "readDigits acc [] = (acc, [])"
| "readDigits acc (c # cs) =
     (if isDigit c then readDigits (acc * 10 + hexVal c) cs else (acc, c # cs))"

definition readNumber :: "string \<Rightarrow> (int \<times> string) option" where
  "readNumber s =
     (case s of
        [] \<Rightarrow> None
      | c # cs \<Rightarrow>
          if c = CHR ''-'' then
            (case cs of
               [] \<Rightarrow> None
             | d # ds \<Rightarrow>
                 if isDigit d then (case readDigits 0 cs of (n, r) \<Rightarrow> Some (- int n, r)) else None)
          else if isDigit c then (case readDigits 0 s of (n, r) \<Rightarrow> Some (int n, r))
          else None)"

definition readValue :: "string \<Rightarrow> (JSON \<times> string) option" where
  "readValue s =
     (case s of
        [] \<Rightarrow> None
      | c # cs \<Rightarrow>
          if c = CHR 0x22 then
            (case readString cs of None \<Rightarrow> None | Some (v, r) \<Rightarrow> Some (JString v, r))
          else if c = CHR ''t'' then
            (if take 3 cs = ''rue'' then Some (JBool True, drop 3 cs) else None)
          else if c = CHR ''f'' then
            (if take 4 cs = ''alse'' then Some (JBool False, drop 4 cs) else None)
          else (case readNumber s of None \<Rightarrow> None | Some (n, r) \<Rightarrow> Some (JNumber n, r)))"

fun readMembers :: "nat \<Rightarrow> string \<Rightarrow> (string \<times> JSON) list option" where
  "readMembers 0 s = None"
| "readMembers (Suc fuel) s =
     (case s of
        [] \<Rightarrow> None
      | c # cs \<Rightarrow>
          if c \<noteq> CHR 0x22 then None
          else
            (case readString cs of
               None \<Rightarrow> None
             | Some (k, r1) \<Rightarrow>
                 (case r1 of
                    [] \<Rightarrow> None
                  | colon # r2 \<Rightarrow>
                      if colon \<noteq> CHR '':'' then None
                      else
                        (case readValue r2 of
                           None \<Rightarrow> None
                         | Some (v, r3) \<Rightarrow>
                             if r3 = ''}'' then Some [(k, v)]
                             else
                               (case r3 of
                                  [] \<Rightarrow> None
                                | comma # r4 \<Rightarrow>
                                    if comma \<noteq> CHR '','' then None
                                    else
                                      (case readMembers fuel r4 of
                                         None \<Rightarrow> None
                                       | Some ms \<Rightarrow> Some ((k, v) # ms)))))))"

definition JSON_parse :: "string \<Rightarrow> (string \<times> JSON) list option" where
  "JSON_parse s =
     (if s = ''{}'' then Some []
      else (case s of [] \<Rightarrow> None | c # cs \<Rightarrow> if c = CHR ''{'' then readMembers (length cs) cs else None))"

definition present :: "(string \<times> JSON option) list \<Rightarrow> (string \<times> JSON) list" where
  "present ps = List.map_filter (\<lambda>(k, v). map_option (Pair k) v) ps"

definition noDigitAhead :: "string \<Rightarrow> bool" where
  "noDigitAhead s = (case s of [] \<Rightarrow> True | c # cs \<Rightarrow> \<not> isDigit c)"

definition member :: "string \<times> JSON \<Rightarrow> string" where
  "member m = quoteJSONString (fst m) @ '':'' @ serializeJSON (snd m)"

text \<open>A request that sets all twelve parameters, written in two orders, and its key.\<close>

definition fullRequest :: "Property list" where
  "fullRequest =
     [P_url ''https://cdn.example.com/x.png'', P_w 800, P_h 600, P_fit ''contain'',
      P_format ''webp'', P_quality 70, P_crop ''smart'', P_bg ''#fff'', P_blur 5,
      P_grayscale True, P_rotate 90, P_placeholder ''none'']"

definition fullRequestReversed :: "Property list" where
  "fullRequestReversed =
     [P_placeholder ''none'', P_rotate 90, P_grayscale True, P_blur 5, P_bg ''#fff'',
      P_crop ''smart'', P_quality 70, P_format ''webp'', P_fit ''contain'', P_h 600, P_w 800,
      P_url ''https://cdn.example.com/x.png'']"

definition fullKey :: string where
  \<open>fullKey = ''{"u":"https://cdn.example.com/x.png","w":800,"h":600,"fit":"contain","f":"webp","q":70,"c":"smart","bg":"#fff","bl":5,"gs":true,"r":90,"p":"none"}''\<close>

section \<open>Unfolding rules\<close>

lemmas schema_defs = querySchema_parse_def querySchema_valid_def inEnum_def inRange_def

lemmas key_defs = requestKey_def cacheKey_def sourceIdentity_def keyProperties_def defaultQualityOf_def

lemmas pipeline_defs = sharpPipeline_def buildSharpPipeline_def selectedFormat_def allowedFormats_def
  defaultQualityOf_def encodeCalls_def assembleResult_def formatToContentType_def createEtag_def

lemmas process_defs = Let_def process_def inputAfterProcess_def schema_defs key_defs pipeline_defs enforceMaxDimensions_def
  enforceMax_def lookup_def store_def obtainSource_def transformAndStore_def notAllowed_def allowed_def
  endsWith_def

lemmas json_defs = JSON_stringify_def quoteJSONString_def quoteChar_def numberToString_def digitChar_def
  natToString.simps

lemmas example_defs = emptyInput_def emptyConfig_def emptyWorld_def exampleEnv_def exampleDisk_def
  exampleCacheConfig_def exampleDigest_def

lemmas disk_defs = createDiskCache_def disk_get_def disk_set_def fileForKey_def ttlMs_def expired_def

section \<open>General facts about \<^verbatim>\<open>process\<close>\<close>

lemma parse_url: "querySchema_parse env input = Inr parsed \<Longrightarrow> url parsed = url input"
  by (auto simp: querySchema_parse_def split: if_splits)

lemma parse_format:
  "querySchema_parse env input = Inr parsed \<Longrightarrow> format parsed = format input"
  by (auto simp: querySchema_parse_def split: if_splits)

lemma parse_ignores_buffer:
  "querySchema_parse env (input\<lparr>buffer := b\<rparr>) = querySchema_parse env input"
  by (simp add: querySchema_parse_def querySchema_valid_def)

lemma parse_without_format:
  "querySchema_parse env input = Inr parsed \<Longrightarrow>
     querySchema_parse env (input\<lparr>format := None\<rparr>) = Inr (parsed\<lparr>format := None\<rparr>)"
  by (auto simp: querySchema_parse_def querySchema_valid_def inEnum_def split: if_splits)

lemma requestKey_ignores_buffer:
  "requestKey config env (input\<lparr>buffer := b\<rparr>) = requestKey config env input"
  by (simp add: requestKey_def parse_ignores_buffer)

lemma cacheKey_buffer_sentinel:
  "\<not> truthyStr (url parsed) \<Longrightarrow>
     cacheKey config env parsed = Some (JSON_stringify (keyProperties config ''buffer'' parsed))"
  by (simp add: cacheKey_def sourceIdentity_def)

lemma cacheKey_url:
  "url parsed = Some u \<Longrightarrow> u \<noteq> [] \<Longrightarrow> newURL env u = Some parsedUrl \<Longrightarrow>
     cacheKey config env parsed = Some (JSON_stringify (keyProperties config (href parsedUrl) parsed))"
  by (simp add: cacheKey_def sourceIdentity_def)

lemma lookup_logs:
  "fetchCalls (snd (lookup cache key world)) = fetchCalls world
   \<and> sharpCalls (snd (lookup cache key world)) = sharpCalls world"
  by (simp add: lookup_def split: option.splits prod.splits)

lemma store_logs:
  "fetchCalls (snd (store cache key result world)) = fetchCalls world
   \<and> sharpCalls (snd (store cache key result world)) = sharpCalls world"
  by (simp add: store_def split: option.splits prod.splits)

lemma store_None: "store None key result world = (Fulfilled (), world)"
  by (simp add: store_def)

lemma obtainSource_buffer:
  "buffer i1 = buffer i2 \<Longrightarrow> obtainSource env i1 parsed world = obtainSource env i2 parsed world"
  by (simp add: obtainSource_def)

lemma buffer_enforceMaxDimensions: "buffer (enforceMaxDimensions c input) = buffer input"
  by (simp add: enforceMaxDimensions_def)

lemma transformAndStore_buffer:
  assumes "buffer i1 = buffer i2"
  shows "transformAndStore config cache env i1 parsed key world
           = transformAndStore config cache env i2 parsed key world"
  unfolding transformAndStore_def obtainSource_buffer[OF assms] by (rule refl)

lemma transformAndStore_errors:
  "fst (transformAndStore config cache env input parsed key world) = Inl e
     \<Longrightarrow> e = FetchRejected \<or> e = SharpRejected \<or> e = CacheSetRejected"
  by (auto simp: transformAndStore_def Let_def split: prod.splits settled.splits)

lemma transformAndStore_writes:
  assumes "transformAndStore config (Some layer) env input parsed key world = (Inr result, world')"
  shows "cache_set layer key result (cacheState world) = (Fulfilled (), cacheState world')"
proof -
  have cs: "cacheState (snd (obtainSource env input parsed world)) = cacheState world"
    by (simp add: obtainSource_def split: option.splits)
  show ?thesis
    using assms cs
    by (auto simp: transformAndStore_def store_def Let_def split: prod.splits settled.splits)
qed

lemma transformAndStore_with_buffer:
  assumes "buffer input = Some bytes"
  shows "fetchCalls (snd (transformAndStore config cache env input parsed key world)) = fetchCalls world
       \<and> sharpCalls (snd (transformAndStore config cache env input parsed key world))
           = sharpCalls world @ [(bytes, sharpPipeline config parsed)]"
proof -
  let ?w2 = "world\<lparr>sharpCalls := sharpCalls world @ [(bytes, sharpPipeline config parsed)]\<rparr>"
  have s: "fetchCalls (snd (store cache key r ?w2)) = fetchCalls world
      \<and> sharpCalls (snd (store cache key r ?w2)) = sharpCalls world @ [(bytes, sharpPipeline config parsed)]" for r
    using store_logs[of cache key r ?w2] by simp
  show ?thesis
  proof (cases "toBuffer env bytes (sharpPipeline config parsed)")
    case Rejected
    with assms show ?thesis by (simp add: transformAndStore_def obtainSource_def Let_def)
  next
    case (Fulfilled out)
    obtain answer w3 where st: "store cache key (assembleResult (selectedFormat config parsed) out) ?w2 = (answer, w3)"
      by (cases "store cache key (assembleResult (selectedFormat config parsed) out) ?w2")
    with s[of "assembleResult (selectedFormat config parsed) out"]
    have "fetchCalls w3 = fetchCalls world"
      "sharpCalls w3 = sharpCalls world @ [(bytes, sharpPipeline config parsed)]" by simp_all
    with assms Fulfilled st show ?thesis
      by (cases answer) (simp_all add: transformAndStore_def obtainSource_def Let_def)
  qed
qed

lemma process_after_checks:
  assumes "querySchema_parse env input = Inr parsed"
    and "buffer input \<noteq> None \<or> truthyStr (url parsed)"
    and "\<not> notAllowed config env parsed"
    and "cacheKey config env parsed = Some key"
  shows "process config cache env input world =
     (case lookup cache key world of
        (Rejected, world1) \<Rightarrow> (Inl CacheGetRejected, world1)
      | (Fulfilled (Some cached), world1) \<Rightarrow> (Inr cached, world1)
      | (Fulfilled None, world1) \<Rightarrow>
          transformAndStore config cache env (enforceMaxDimensions config input) parsed key world1)"
  using assms by (auto simp: process_def Let_def)

lemma process_not_SourceUrlNotAllowed:
  assumes "querySchema_parse env input = Inr parsed" and "\<not> notAllowed config env parsed"
  shows "fst (process config cache env input world) \<noteq> Inl SourceUrlNotAllowed"
  using assms transformAndStore_errors[of config cache env "enforceMaxDimensions config input" parsed _ _ SourceUrlNotAllowed]
  by (auto simp: process_def Let_def split: option.splits prod.splits settled.splits)

lemma process_result_checks:
  assumes "process config cache env input world = (Inr result, world')"
  obtains parsed key where "querySchema_parse env input = Inr parsed"
    and "buffer input \<noteq> None \<or> truthyStr (url parsed)"
    and "\<not> notAllowed config env parsed"
    and "cacheKey config env parsed = Some key"
proof -
  from assms obtain parsed where p: "querySchema_parse env input = Inr parsed"
    by (auto simp: process_def split: sum.splits)
  from assms p obtain key where k: "cacheKey config env parsed = Some key"
    by (auto simp: process_def Let_def split: if_splits option.splits)
  from assms p have "buffer input \<noteq> None \<or> truthyStr (url parsed)" "\<not> notAllowed config env parsed"
    by (auto simp: process_def Let_def split: if_splits)
  with p k that show thesis by blast
qed

lemma process_hit:
  assumes "querySchema_parse env input = Inr parsed"
    and "buffer input \<noteq> None \<or> truthyStr (url parsed)"
    and "\<not> notAllowed config env parsed"
    and "cacheKey config env parsed = Some key"
    and "cache_get layer key (cacheState world) = (Fulfilled (Some cached), st)"
  shows "process config (Some layer) env input world = (Inr cached, world\<lparr>cacheState := st\<rparr>)"
  using assms(5) by (simp add: process_after_checks[OF assms(1-4)] lookup_def)

lemma process_with_buffer:
  assumes parse: "querySchema_parse env input = Inr parsed" and buf: "buffer input = Some bytes"
  shows "fetchCalls (snd (process config cache env input world)) = fetchCalls world
       \<and> (sharpCalls (snd (process config cache env input world)) = sharpCalls world
          \<or> sharpCalls (snd (process config cache env input world))
               = sharpCalls world @ [(bytes, sharpPipeline config parsed)])"
proof (cases "notAllowed config env parsed")
  case True
  with parse buf show ?thesis by (simp add: process_def)
next
  case na: False
  show ?thesis
  proof (cases "cacheKey config env parsed")
    case None
    with parse buf na show ?thesis by (simp add: process_def)
  next
    case (Some key)
    have g: "buffer input \<noteq> None \<or> truthyStr (url parsed)" using buf by simp
    obtain answer w1 where l: "lookup cache key world = (answer, w1)"
      by (cases "lookup cache key world")
    with lookup_logs[of cache key world]
    have w1: "fetchCalls w1 = fetchCalls world" "sharpCalls w1 = sharpCalls world" by simp_all
    have b: "buffer (enforceMaxDimensions config input) = Some bytes"
      using buf by (simp add: buffer_enforceMaxDimensions)
    show ?thesis
    proof (cases answer)
      case Rejected
      with l w1 show ?thesis by (simp add: process_after_checks[OF parse g na Some])
    next
      case (Fulfilled found)
      show ?thesis
      proof (cases found)
        case None
        with Fulfilled l w1 transformAndStore_with_buffer[OF b, of config cache env parsed key w1]
        show ?thesis by (simp add: process_after_checks[OF parse g na Some])
      next
        case (Some cached)
        with Fulfilled l w1 show ?thesis by (simp add: process_after_checks[OF parse g na \<open>cacheKey config env parsed = Some key\<close>])
      qed
    qed
  qed
qed

section \<open>Maximum dimensions\<close>

text \<open>
  The configured maxima are written to \<open>input\<close> after \<open>parsed\<close> was computed, and nothing
  reads \<^verbatim>\<open>input.w\<close> or \<^verbatim>\<open>input.h\<close> afterwards: the outcome of \<^verbatim>\<open>process\<close> does not depend
  on \<^verbatim>\<open>maxWidth\<close> and \<^verbatim>\<open>maxHeight\<close> at all.
\<close>

lemma defaultQualityOf_maxima:
  "defaultQualityOf (config\<lparr>maxWidth := a, maxHeight := b\<rparr>) = defaultQualityOf config"
  by (simp add: defaultQualityOf_def)

lemma allowedFormats_maxima:
  "allowedFormats (config\<lparr>maxWidth := a, maxHeight := b\<rparr>) = allowedFormats config"
  by (simp add: allowedFormats_def)

lemma cacheKey_maxima:
  "cacheKey (config\<lparr>maxWidth := a, maxHeight := b\<rparr>) env parsed = cacheKey config env parsed"
  by (simp add: cacheKey_def keyProperties_def defaultQualityOf_maxima cong: option.case_cong)

lemma sharpPipeline_maxima:
  "sharpPipeline (config\<lparr>maxWidth := a, maxHeight := b\<rparr>) parsed = sharpPipeline config parsed"
  by (simp add: sharpPipeline_def selectedFormat_def allowedFormats_maxima defaultQualityOf_maxima
      cong: option.case_cong)

lemma selectedFormat_maxima:
  "selectedFormat (config\<lparr>maxWidth := a, maxHeight := b\<rparr>) parsed = selectedFormat config parsed"
  by (simp add: selectedFormat_def allowedFormats_maxima cong: option.case_cong)

lemma transformAndStore_maxima:
  "buffer i1 = buffer i2 \<Longrightarrow>
   transformAndStore (config\<lparr>maxWidth := a, maxHeight := b\<rparr>) cache env i1 parsed key world
     = transformAndStore config cache env i2 parsed key world"
  unfolding transformAndStore_def sharpPipeline_maxima selectedFormat_maxima
  by (simp add: obtainSource_buffer[of i1 i2])

lemma notAllowed_maxima:
  "notAllowed (config\<lparr>maxWidth := a, maxHeight := b\<rparr>) env parsed = notAllowed config env parsed"
  by (simp add: notAllowed_def)

lemma process_independent_of_maxima:
  "process (config\<lparr>maxWidth := a, maxHeight := b\<rparr>) cache env input world = process config cache env input world"
proof -
  have t: "transformAndStore (config\<lparr>maxWidth := a, maxHeight := b\<rparr>) cache env
             (enforceMaxDimensions (config\<lparr>maxWidth := a, maxHeight := b\<rparr>) input) parsed key world1
           = transformAndStore config cache env (enforceMaxDimensions config input) parsed key world1"
    for parsed key world1
    by (rule transformAndStore_maxima) (simp add: buffer_enforceMaxDimensions)
  show ?thesis
    unfolding process_def Let_def cacheKey_maxima notAllowed_maxima t
    by (rule refl)
qed

text \<open>
  Claim C1 (width and height are clamped to the configured maxima before the cache key is
  computed) does not hold of the code. With \<^verbatim>\<open>maxWidth = 4000\<close> and a request for
  \<^verbatim>\<open>w = 9000\<close> on a buffer: the cache key records the width 9000, the engine is asked to
  resize to 9000 and, with an engine that obeys, the result is 9000 wide; only the
  caller's object has its \<^verbatim>\<open>w\<close> set to 4000.
\<close>

theorem requested_width_not_clamped:
  \<open>requestKey (emptyConfig\<lparr>maxWidth := Some 4000\<rparr>) (exampleEnv z)
       (emptyInput\<lparr>buffer := Some [1, 2, 3], w := Some 9000, crop := Some ''center''\<rparr>)
     = Some ''{"u":"buffer","w":9000,"fit":"cover","q":80,"c":"center"}''
   \<and> process (emptyConfig\<lparr>maxWidth := Some 4000\<rparr>) None (exampleEnv z)
       (emptyInput\<lparr>buffer := Some [1, 2, 3], w := Some 9000, crop := Some ''center''\<rparr>) (emptyWorld ())
     = (Inr \<lparr>ProcessResult.buffer = [1, 2, 3], contentType = ''image/png'', etag = ''W/"3-6"'',
             width = Some 9000, height = Some 10\<rparr>,
        \<lparr>cacheState = (), fetchCalls = [],
         sharpCalls = [([1, 2, 3], [Resize (Some 9000) None (Some ''cover'') (Some ''centre'')])]\<rparr>)
   \<and> inputAfterProcess (emptyConfig\<lparr>maxWidth := Some 4000\<rparr>) (exampleEnv z)
       (emptyInput\<lparr>buffer := Some [1, 2, 3], w := Some 9000, crop := Some ''center''\<rparr>)
     = emptyInput\<lparr>buffer := Some [1, 2, 3], w := Some 4000, crop := Some ''center''\<rparr>\<close>
  by (simp add: process_defs json_defs example_defs)

section \<open>Defaults\<close>

text \<open>
  What the schema does with absent properties: \<^verbatim>\<open>fit\<close> becomes \<^verbatim>\<open>cover\<close>; \<^verbatim>\<open>quality\<close> and
  \<^verbatim>\<open>placeholder\<close> stay undefined (the quality used is then the configured default, 80
  when there is none, and an undefined placeholder runs the same pipeline as
  \<^verbatim>\<open>none\<close>); \<^verbatim>\<open>crop\<close> becomes \<^verbatim>\<open>center\<close> only when the schema library applies a default
  inside an optional.
\<close>

lemma schema_defaults:
  assumes "querySchema_parse env input = Inr parsed"
    and "fit input = None" and "crop input = None" and "quality input = None"
    and "placeholder input = None"
  shows "fit parsed = Some ''cover''"
    and "crop parsed = (if defaultInsideOptional env then Some ''center'' else None)"
    and "quality parsed = None" and "placeholder parsed = None"
  using assms by (auto simp: querySchema_parse_def split: if_splits)

lemma defaultQualityOf_unset: "defaultQuality config = None \<Longrightarrow> defaultQualityOf config = 80"
  by (simp add: defaultQualityOf_def)

lemma placeholder_none_same_pipeline:
  "placeholder parsed = None \<Longrightarrow>
     sharpPipeline config parsed = sharpPipeline config (parsed\<lparr>placeholder := Some ''none''\<rparr>)"
  by (simp add: sharpPipeline_def buildSharpPipeline_def selectedFormat_def)

text \<open>
  Claim C4 (a request without \<^verbatim>\<open>crop\<close> behaves as one with \<^verbatim>\<open>crop = center\<close>) does not hold
  of the code when the schema library leaves an absent optional key undefined (zod 3):
  without \<^verbatim>\<open>crop\<close> the resize is positioned by \<^verbatim>\<open>attention\<close>, with \<^verbatim>\<open>crop = center\<close> by
  \<^verbatim>\<open>centre\<close>, and the two requests have different cache keys.
\<close>

theorem absent_crop_is_attention:
  \<open>snd (process emptyConfig None (exampleEnv False)
       (emptyInput\<lparr>buffer := Some [1, 2, 3], w := Some 5\<rparr>) (emptyWorld ()))
     = \<lparr>cacheState = (), fetchCalls = [],
        sharpCalls = [([1, 2, 3], [Resize (Some 5) None (Some ''cover'') (Some ''attention'')])]\<rparr>
   \<and> snd (process emptyConfig None (exampleEnv False)
       (emptyInput\<lparr>buffer := Some [1, 2, 3], w := Some 5, crop := Some ''center''\<rparr>) (emptyWorld ()))
     = \<lparr>cacheState = (), fetchCalls = [],
        sharpCalls = [([1, 2, 3], [Resize (Some 5) None (Some ''cover'') (Some ''centre'')])]\<rparr>
   \<and> requestKey emptyConfig (exampleEnv False) (emptyInput\<lparr>buffer := Some [1, 2, 3], w := Some 5\<rparr>)
     = Some ''{"u":"buffer","w":5,"fit":"cover","q":80}''
   \<and> requestKey emptyConfig (exampleEnv False)
       (emptyInput\<lparr>buffer := Some [1, 2, 3], w := Some 5, crop := Some ''center''\<rparr>)
     = Some ''{"u":"buffer","w":5,"fit":"cover","q":80,"c":"center"}''\<close>
  by (simp add: process_defs json_defs example_defs)

section \<open>Cache writes\<close>

text \<open>
  Claim C2 as stated (a rejected cache write does not fail the request) is false: on a
  disk whose \<^verbatim>\<open>fs.writeFile\<close> rejects, the result is assembled, the engine has run, and
  \<^verbatim>\<open>process\<close> rejects with the rejection of \<^verbatim>\<open>cache.set\<close>.
\<close>

theorem cache_write_failure_fails_request:
  \<open>process emptyConfig (Some (createDiskCache exampleDigest exampleCacheConfig)) (exampleEnv False)
       (emptyInput\<lparr>buffer := Some [1, 2, 3], w := Some 5\<rparr>)
       (emptyWorld (exampleDisk\<lparr>writeFileRejects := True\<rparr>))
     = (Inl CacheSetRejected,
        \<lparr>cacheState = exampleDisk\<lparr>writeFileRejects := True\<rparr>, fetchCalls = [],
         sharpCalls = [([1, 2, 3], [Resize (Some 5) None (Some ''cover'') (Some ''attention'')])]\<rparr>)\<close>
  by (simp add: process_defs json_defs example_defs disk_defs)

text \<open>
  Claim C2, amended: with a cache backend, \<^verbatim>\<open>process\<close> returns a result only when
  \<^verbatim>\<open>cache.get\<close> was fulfilled and either hit (the result is the cached one) or missed and
  \<^verbatim>\<open>cache.set\<close> of the result was fulfilled. A rejected \<^verbatim>\<open>cache.set\<close> rejects the call.
\<close>

theorem result_needs_hit_or_fulfilled_write:
  assumes "process config (Some layer) env input world = (Inr result, world')"
  shows "\<exists>key. requestKey config env input = Some key \<and>
           (case cache_get layer key (cacheState world) of
              (Rejected, st) \<Rightarrow> False
            | (Fulfilled (Some cached), st) \<Rightarrow> result = cached
            | (Fulfilled None, st) \<Rightarrow> fst (cache_set layer key result st) = Fulfilled ())"
proof -
  from assms obtain parsed where p: "querySchema_parse env input = Inr parsed"
    by (auto simp: process_def split: sum.splits)
  from assms p obtain key where k: "cacheKey config env parsed = Some key"
    by (auto simp: process_def Let_def split: if_splits option.splits)
  from assms p have g: "buffer input \<noteq> None \<or> truthyStr (url parsed)" "\<not> notAllowed config env parsed"
    by (auto simp: process_def Let_def split: if_splits)
  have rk: "requestKey config env input = Some key" using p k by (simp add: requestKey_def)
  obtain answer st where cg: "cache_get layer key (cacheState world) = (answer, st)"
    by (cases "cache_get layer key (cacheState world)")
  have "(case (answer, st) of
              (Rejected, st) \<Rightarrow> False
            | (Fulfilled (Some cached), st) \<Rightarrow> result = cached
            | (Fulfilled None, st) \<Rightarrow> fst (cache_set layer key result st) = Fulfilled ())"
  proof (cases answer)
    case Rejected
    with assms cg show ?thesis
      by (simp add: process_after_checks[OF p g k] lookup_def)
  next
    case (Fulfilled found)
    show ?thesis
    proof (cases found)
      case None
      with Fulfilled assms cg have
        "transformAndStore config (Some layer) env (enforceMaxDimensions config input) parsed key
           (world\<lparr>cacheState := st\<rparr>) = (Inr result, world')"
        by (simp add: process_after_checks[OF p g k] lookup_def)
      from transformAndStore_writes[OF this] None Fulfilled show ?thesis by simp
    next
      case (Some cached)
      with Fulfilled assms cg show ?thesis
        by (simp add: process_after_checks[OF p g k] lookup_def)
    qed
  qed
  with rk cg show ?thesis by simp
qed

text \<open>
  Witness for C2: a call on an empty disk cache that misses, stores and returns; the
  theorem gives that the write was fulfilled.
\<close>

theorem result_needs_hit_or_fulfilled_write_witness:
  \<open>process emptyConfig (Some (createDiskCache exampleDigest exampleCacheConfig)) (exampleEnv False)
       (emptyInput\<lparr>buffer := Some [1, 2, 3]\<rparr>) (emptyWorld exampleDisk)
     = (Inr \<lparr>ProcessResult.buffer = [1, 2, 3], contentType = ''image/png'', etag = ''W/"3-6"'',
             width = Some 10, height = Some 10\<rparr>,
        \<lparr>cacheState = exampleDisk\<lparr>files :=
            [''c/{"u":"buffer","fit":"cover","q":80}.json'' \<mapsto>
               Stored \<lparr>rec_value = \<lparr>ProcessResult.buffer = [1, 2, 3], contentType = ''image/png'',
                          etag = ''W/"3-6"'', width = Some 10, height = Some 10\<rparr>,
                       expiresAt = Some 61000\<rparr>]\<rparr>,
         fetchCalls = [], sharpCalls = [([1, 2, 3], [])]\<rparr>)
   \<and> fst (cache_set (createDiskCache exampleDigest exampleCacheConfig) ''{"u":"buffer","fit":"cover","q":80}''
        \<lparr>ProcessResult.buffer = [1, 2, 3], contentType = ''image/png'', etag = ''W/"3-6"'',
             width = Some 10, height = Some 10\<rparr> exampleDisk) = Fulfilled ()\<close>
proof -
  let ?layer = "createDiskCache exampleDigest exampleCacheConfig"
  let ?input = "emptyInput\<lparr>buffer := Some [1, 2, 3]\<rparr>"
  let ?r = \<open>\<lparr>ProcessResult.buffer = [1, 2, 3], contentType = ''image/png'', etag = ''W/"3-6"'',
             width = Some 10, height = Some 10\<rparr>\<close>
  have call: \<open>process emptyConfig (Some ?layer) (exampleEnv False) ?input (emptyWorld exampleDisk)
     = (Inr ?r,
        \<lparr>cacheState = exampleDisk\<lparr>files :=
            [''c/{"u":"buffer","fit":"cover","q":80}.json'' \<mapsto>
               Stored \<lparr>rec_value = ?r, expiresAt = Some 61000\<rparr>]\<rparr>,
         fetchCalls = [], sharpCalls = [([1, 2, 3], [])]\<rparr>)\<close>
    by (simp add: process_defs json_defs example_defs disk_defs)
  have key: \<open>requestKey emptyConfig (exampleEnv False) ?input = Some ''{"u":"buffer","fit":"cover","q":80}''\<close>
    by (simp add: key_defs schema_defs json_defs example_defs)
  have miss: \<open>cache_get ?layer ''{"u":"buffer","fit":"cover","q":80}'' (cacheState (emptyWorld exampleDisk))
      = (Fulfilled None, exampleDisk)\<close>
    by (simp add: disk_defs example_defs)
  from result_needs_hit_or_fulfilled_write[OF call] key miss
  have \<open>fst (cache_set ?layer ''{"u":"buffer","fit":"cover","q":80}'' ?r exampleDisk) = Fulfilled ()\<close>
    by simp
  with call show ?thesis by (simp only: simp_thms)
qed

section \<open>Buffer inputs and the cache\<close>

text \<open>
  Claim C3 as stated (two calls with the same buffer and the same parameters never hit
  each other's cache entries) is false: on an empty disk cache the first call misses and
  stores its result under the key of the sentinel \<^verbatim>\<open>"buffer"\<close>; the second call finds
  that entry and returns it, and the engine is not run again.
\<close>

theorem identical_buffers_hit_cache:
  \<open>process emptyConfig (Some (createDiskCache exampleDigest exampleCacheConfig)) (exampleEnv False)
       (emptyInput\<lparr>buffer := Some [1, 2, 3]\<rparr>) (emptyWorld exampleDisk)
     = (Inr exampleResult,
        \<lparr>cacheState = diskAfterFirstCall, fetchCalls = [], sharpCalls = [([1, 2, 3], [])]\<rparr>)
   \<and> cache_get (createDiskCache exampleDigest exampleCacheConfig) ''{"u":"buffer","fit":"cover","q":80}''
        exampleDisk = (Fulfilled None, exampleDisk)
   \<and> cache_get (createDiskCache exampleDigest exampleCacheConfig) ''{"u":"buffer","fit":"cover","q":80}''
        diskAfterFirstCall = (Fulfilled (Some exampleResult), diskAfterFirstCall)
   \<and> process emptyConfig (Some (createDiskCache exampleDigest exampleCacheConfig)) (exampleEnv False)
       (emptyInput\<lparr>buffer := Some [1, 2, 3]\<rparr>)
       \<lparr>cacheState = diskAfterFirstCall, fetchCalls = [], sharpCalls = [([1, 2, 3], [])]\<rparr>
     = (Inr exampleResult,
        \<lparr>cacheState = diskAfterFirstCall, fetchCalls = [], sharpCalls = [([1, 2, 3], [])]\<rparr>)\<close>
  by (simp add: process_defs json_defs example_defs disk_defs exampleResult_def diskAfterFirstCall_def)

text \<open>
  Claim C3, amended: a call with a buffer and no URL uses the key whose source identity is
  the sentinel \<^verbatim>\<open>"buffer"\<close>, whatever the bytes; when such a call misses and returns, it
  has stored its result under that key; and a call that finds an entry under that key
  returns the entry without running the engine.
\<close>

theorem buffer_requests_share_cache_entry:
  assumes parse: "querySchema_parse env input = Inr parsed"
    and nourl: "url input = None" and buf: "buffer input = Some bytes"
    and key: "key = JSON_stringify (keyProperties config ''buffer'' parsed)"
  shows "requestKey config env input = Some key
       \<and> (process config (Some layer) env input world = (Inr result, world1)
            \<and> cache_get layer key (cacheState world) = (Fulfilled None, st1)
           \<longrightarrow> cache_set layer key result st1 = (Fulfilled (), cacheState world1))
       \<and> (cache_get layer key (cacheState world2) = (Fulfilled (Some cached), st2)
           \<longrightarrow> process config (Some layer) env input world2 = (Inr cached, world2\<lparr>cacheState := st2\<rparr>)
               \<and> sharpCalls (snd (process config (Some layer) env input world2)) = sharpCalls world2)"
proof -
  have u: "url parsed = None" using parse nourl by (simp add: parse_url)
  then have k: "cacheKey config env parsed = Some key"
    using key by (simp add: cacheKey_buffer_sentinel)
  have g: "buffer input \<noteq> None \<or> truthyStr (url parsed)" using buf by simp
  have a: "\<not> notAllowed config env parsed" using u by (simp add: notAllowed_def split: option.splits)
  have 1: "requestKey config env input = Some key" using parse k by (simp add: requestKey_def)
  have 2: "cache_set layer key result st1 = (Fulfilled (), cacheState world1)"
    if "process config (Some layer) env input world = (Inr result, world1)"
      and "cache_get layer key (cacheState world) = (Fulfilled None, st1)"
  proof -
    from that have "transformAndStore config (Some layer) env (enforceMaxDimensions config input) parsed key
           (world\<lparr>cacheState := st1\<rparr>) = (Inr result, world1)"
      by (simp add: process_after_checks[OF parse g a k] lookup_def)
    from transformAndStore_writes[OF this] show ?thesis by simp
  qed
  have 3: "process config (Some layer) env input world2 = (Inr cached, world2\<lparr>cacheState := st2\<rparr>)"
    if "cache_get layer key (cacheState world2) = (Fulfilled (Some cached), st2)"
    using that by (rule process_hit[OF parse g a k])
  from 1 2 3 show ?thesis by simp
qed

text \<open>Witness for C3: the two calls of the counterexample, through the theorem.\<close>

theorem buffer_requests_share_cache_entry_witness:
  \<open>requestKey emptyConfig (exampleEnv False) (emptyInput\<lparr>buffer := Some [1, 2, 3]\<rparr>)
     = Some ''{"u":"buffer","fit":"cover","q":80}''
   \<and> cache_set (createDiskCache exampleDigest exampleCacheConfig) ''{"u":"buffer","fit":"cover","q":80}''
        exampleResult exampleDisk = (Fulfilled (), diskAfterFirstCall)
   \<and> process emptyConfig (Some (createDiskCache exampleDigest exampleCacheConfig)) (exampleEnv False)
       (emptyInput\<lparr>buffer := Some [1, 2, 3]\<rparr>) (emptyWorld diskAfterFirstCall)
     = (Inr exampleResult, emptyWorld diskAfterFirstCall)\<close>
proof -
  let ?layer = "createDiskCache exampleDigest exampleCacheConfig"
  let ?input = "emptyInput\<lparr>buffer := Some [1, 2, 3]\<rparr>"
  let ?w1 = "\<lparr>cacheState = diskAfterFirstCall, fetchCalls = [], sharpCalls = [([1, 2, 3], [])]\<rparr>"
  have parse: "querySchema_parse (exampleEnv False) ?input = Inr (?input\<lparr>buffer := None, fit := Some ''cover''\<rparr>)"
    by (simp add: schema_defs example_defs)
  have nourl: "url ?input = None" and buf: "buffer ?input = Some [1, 2, 3]"
    by (simp_all add: emptyInput_def)
  have key: \<open>''{"u":"buffer","fit":"cover","q":80}''
      = JSON_stringify (keyProperties emptyConfig ''buffer'' (?input\<lparr>buffer := None, fit := Some ''cover''\<rparr>))\<close>
    by (simp add: key_defs json_defs example_defs)
  have call: "process emptyConfig (Some ?layer) (exampleEnv False) ?input (emptyWorld exampleDisk)
     = (Inr exampleResult, ?w1)"
    by (simp add: process_defs json_defs example_defs disk_defs exampleResult_def diskAfterFirstCall_def)
  have miss: \<open>cache_get ?layer ''{"u":"buffer","fit":"cover","q":80}'' (cacheState (emptyWorld exampleDisk))
      = (Fulfilled None, exampleDisk)\<close>
    by (simp add: disk_defs example_defs)
  have hit: \<open>cache_get ?layer ''{"u":"buffer","fit":"cover","q":80}'' (cacheState (emptyWorld diskAfterFirstCall))
      = (Fulfilled (Some exampleResult), diskAfterFirstCall)\<close>
    by (simp add: disk_defs example_defs diskAfterFirstCall_def)
  from buffer_requests_share_cache_entry[OF parse nourl buf key,
      of ?layer "emptyWorld exampleDisk" exampleResult ?w1 exampleDisk "emptyWorld diskAfterFirstCall"
        exampleResult diskAfterFirstCall]
    call miss hit
  show ?thesis by (simp add: emptyWorld_def)
qed

section \<open>What the cache key holds\<close>

text \<open>Reading back what \<open>JSON_stringify\<close> wrote gives the properties that were present.\<close>

lemma below16: "d < 16 \<Longrightarrow> d = 0 \<or> d = 1 \<or> d = 2 \<or> d = 3 \<or> d = 4 \<or> d = 5 \<or> d = 6 \<or> d = 7 \<or> d = 8
    \<or> d = 9 \<or> d = 10 \<or> d = 11 \<or> d = 12 \<or> d = 13 \<or> d = 14 \<or> d = (15::nat)"
  by arith

lemma below10: "d < 10 \<Longrightarrow> d = 0 \<or> d = 1 \<or> d = 2 \<or> d = 3 \<or> d = 4 \<or> d = 5 \<or> d = 6 \<or> d = 7 \<or> d = 8
    \<or> d = (9::nat)"
  by arith

lemma hexVal_digitChar: "d < 16 \<Longrightarrow> hexVal (digitChar d) = d"
  by (drule below16) (elim disjE; simp add: hexVal_def digitChar_def)

lemma isDigit_digitChar: "d < 10 \<Longrightarrow> isDigit (digitChar d)"
  by (drule below10) (elim disjE; simp add: isDigit_def digitChar_def)

lemma digitChar_not_special:
  "d < 10 \<Longrightarrow> digitChar d \<noteq> CHR 0x22 \<and> digitChar d \<noteq> CHR ''t'' \<and> digitChar d \<noteq> CHR ''f''
     \<and> digitChar d \<noteq> CHR ''-''"
  by (drule below10) (elim disjE; simp add: digitChar_def)

lemma readString_quoteChar:
  "readString (quoteChar c @ rest) =
     (case readString rest of None \<Rightarrow> None | Some (s, r) \<Rightarrow> Some (c # s, r))"
proof (cases "c = CHR 0x22 \<or> c = CHR 0x5C \<or> c = CHR 0x08 \<or> c = CHR 0x09 \<or> c = CHR 0x0A
    \<or> c = CHR 0x0C \<or> c = CHR 0x0D")
  case True
  then show ?thesis
    by (elim disjE) (simp_all add: quoteChar_def unescape_def split: option.splits)
next
  case False
  show ?thesis
  proof (cases "(of_char c :: nat) < 32")
    case True
    then have d: "(of_char c :: nat) div 16 < 16" "(of_char c :: nat) mod 16 < 16" by simp_all
    have "char_of (hexVal (digitChar (of_char c div 16)) * 16 + hexVal (digitChar (of_char c mod 16))) = c"
      by (simp add: hexVal_digitChar[OF d(1)] hexVal_digitChar[OF d(2)])
    with True False show ?thesis by (simp add: quoteChar_def split: option.splits)
  next
    case False
    with \<open>\<not> (c = CHR 0x22 \<or> c = CHR 0x5C \<or> c = CHR 0x08 \<or> c = CHR 0x09 \<or> c = CHR 0x0A
    \<or> c = CHR 0x0C \<or> c = CHR 0x0D)\<close> show ?thesis by (simp add: quoteChar_def)
  qed
qed

lemma readString_quoted:
  "readString (concat (map quoteChar s) @ CHR 0x22 # rest) = Some (s, rest)"
  by (induction s) (simp_all add: readString_quoteChar)

lemma readString_quoteJSONString:
  "quoteJSONString s @ rest = CHR 0x22 # t \<Longrightarrow> readString t = Some (s, rest)"
  using readString_quoted[of s rest] by (simp add: quoteJSONString_def)

lemma readDigits_stop: "noDigitAhead rest \<Longrightarrow> readDigits acc rest = (acc, rest)"
  by (cases rest) (simp_all add: noDigitAhead_def)

lemma natToString_small: "n < 10 \<Longrightarrow> natToString 10 n = [digitChar n]"
  by (subst natToString.simps) simp

lemma natToString_large:
  "\<not> n < 10 \<Longrightarrow> natToString 10 n = natToString 10 (n div 10) @ [digitChar (n mod 10)]"
  by (subst natToString.simps) simp

lemma readDigits_natToString:
  "readDigits acc (natToString 10 n @ rest)
     = readDigits (acc * 10 ^ length (natToString 10 n) + n) rest"
proof (induction n arbitrary: acc rest rule: less_induct)
  case (less n)
  show ?case
  proof (cases "n < 10")
    case True
    then show ?thesis
      by (simp add: natToString_small isDigit_digitChar hexVal_digitChar)
  next
    case False
    then have lt: "n div 10 < n" by simp
    have m: "n mod 10 < 10" by simp
    have "readDigits acc (natToString 10 n @ rest)
        = readDigits acc (natToString 10 (n div 10) @ (digitChar (n mod 10) # rest))"
      by (simp add: natToString_large[OF False])
    also have "\<dots> = readDigits (acc * 10 ^ length (natToString 10 (n div 10)) + n div 10)
        (digitChar (n mod 10) # rest)"
      by (rule less.IH[OF lt])
    also have "\<dots> = readDigits ((acc * 10 ^ length (natToString 10 (n div 10)) + n div 10) * 10 + n mod 10) rest"
      using m by (simp add: isDigit_digitChar hexVal_digitChar)
    also have "(acc * 10 ^ length (natToString 10 (n div 10)) + n div 10) * 10 + n mod 10
        = acc * 10 ^ length (natToString 10 n) + n"
      by (simp add: natToString_large[OF False] algebra_simps)
    finally show ?thesis .
  qed
qed

lemma natToString_head:
  "\<exists>c cs. natToString 10 n = c # cs \<and> isDigit c \<and> c \<noteq> CHR 0x22 \<and> c \<noteq> CHR ''t''
     \<and> c \<noteq> CHR ''f'' \<and> c \<noteq> CHR ''-''"
proof (induction n rule: less_induct)
  case (less n)
  show ?case
  proof (cases "n < 10")
    case True
    then show ?thesis
      using digitChar_not_special[OF True] by (simp add: natToString_small isDigit_digitChar)
  next
    case False
    then have "n div 10 < n" by simp
    from less.IH[OF this] show ?thesis by (auto simp: natToString_large[OF False])
  qed
qed

lemma readDigits_whole:
  "noDigitAhead rest \<Longrightarrow> readDigits 0 (natToString 10 n @ rest) = (n, rest)"
  by (simp add: readDigits_natToString readDigits_stop)

lemma readNumber_numberToString:
  assumes "noDigitAhead rest"
  shows "readNumber (numberToString n @ rest) = Some (n, rest)"
proof (cases "n < 0")
  case True
  define m where "m = nat (- n)"
  obtain c cs where h: "natToString 10 m = c # cs" "isDigit c" "c \<noteq> CHR ''-''"
    using natToString_head[of m] by blast
  have r: "readDigits 0 (c # cs @ rest) = (m, rest)"
    using readDigits_whole[OF assms, of m] h by simp
  have n: "numberToString n = CHR ''-'' # c # cs"
    using True h by (simp add: numberToString_def m_def)
  have i: "- int m = n" using True by (simp add: m_def)
  show ?thesis
    unfolding n using h(2) r i by (simp add: readNumber_def)
next
  case False
  define m where "m = nat n"
  obtain c cs where h: "natToString 10 m = c # cs" "isDigit c" "c \<noteq> CHR ''-''"
    using natToString_head[of m] by blast
  have r: "readDigits 0 (c # cs @ rest) = (m, rest)"
    using readDigits_whole[OF assms, of m] h by simp
  have n: "numberToString n = c # cs"
    using False h by (simp add: numberToString_def m_def)
  have i: "int m = n" using False by (simp add: m_def)
  show ?thesis
    unfolding n using h(2,3) r i by (simp add: readNumber_def)
qed

lemma numberToString_head:
  "\<exists>c cs. numberToString n = c # cs \<and> c \<noteq> CHR 0x22 \<and> c \<noteq> CHR ''t'' \<and> c \<noteq> CHR ''f''"
  using natToString_head[of "nat n"] by (auto simp: numberToString_def)

lemma readValue_serializeJSON:
  assumes "noDigitAhead rest"
  shows "readValue (serializeJSON v @ rest) = Some (v, rest)"
proof (cases v)
  case (JString s)
  then show ?thesis
    using readString_quoted[of s rest] by (simp add: readValue_def quoteJSONString_def)
next
  case (JNumber n)
  obtain c cs where h: "numberToString n = c # cs" "c \<noteq> CHR 0x22" "c \<noteq> CHR ''t''" "c \<noteq> CHR ''f''"
    using numberToString_head[of n] by blast
  have "readNumber (c # cs @ rest) = Some (n, rest)"
    using readNumber_numberToString[OF assms, of n] h by simp
  with JNumber h show ?thesis by (simp add: readValue_def)
next
  case (JBool b)
  then show ?thesis by (cases b) (simp_all add: readValue_def)
qed

lemma serializeProperties_present: "serializeProperties ps = map member (present ps)"
  by (induction ps rule: serializeProperties.induct)
     (simp_all add: present_def member_def map_filter_simps)

lemma member_length: "Suc 0 \<le> length (member m)"
  by (simp add: member_def quoteJSONString_def)

lemma joinWith_length: "length ms \<le> length (joinWith sep (map member ms))"
proof (induction ms rule: induct_list012)
  case 1
  then show ?case by simp
next
  case (2 x)
  then show ?case using member_length[of x] by simp
next
  case (3 x y zs)
  have "length (joinWith sep (map member (x # y # zs)))
      = length (member x) + (length sep + length (joinWith sep (map member (y # zs))))"
    by simp
  with "3.IH"(2) member_length[of x] show ?case by simp
qed

lemma readMembers_last:
  "readMembers (Suc fuel) (member (k, v) @ ''}'') = Some [(k, v)]"
proof -
  have s: "member (k, v) @ ''}''
      = CHR 0x22 # (concat (map quoteChar k) @ CHR 0x22 # (CHR '':'' # (serializeJSON v @ ''}'')))"
    by (simp add: member_def quoteJSONString_def)
  have v: "readValue (serializeJSON v @ ''}'') = Some (v, ''}'')"
    by (rule readValue_serializeJSON) (simp add: noDigitAhead_def isDigit_def)
  show ?thesis
    unfolding s by (simp add: readString_quoted v)
qed

lemma readMembers_more:
  "readMembers (Suc fuel) (member (k, v) @ CHR '','' # rest)
     = (case readMembers fuel rest of None \<Rightarrow> None | Some ms \<Rightarrow> Some ((k, v) # ms))"
proof -
  have s: "member (k, v) @ CHR '','' # rest
      = CHR 0x22 # (concat (map quoteChar k) @ CHR 0x22 # (CHR '':'' # (serializeJSON v @ CHR '','' # rest)))"
    by (simp add: member_def quoteJSONString_def)
  have v: "readValue (serializeJSON v @ CHR '','' # rest) = Some (v, CHR '','' # rest)"
    by (rule readValue_serializeJSON) (simp add: noDigitAhead_def isDigit_def)
  show ?thesis
    unfolding s by (simp add: readString_quoted v)
qed

lemma readMembers_joinWith:
  "ms \<noteq> [] \<Longrightarrow> length ms \<le> fuel \<Longrightarrow>
     readMembers fuel (joinWith '','' (map member ms) @ ''}'') = Some ms"
proof (induction ms arbitrary: fuel rule: induct_list012)
  case 1
  then show ?case by simp
next
  case (2 x)
  then obtain f where f: "fuel = Suc f" by (cases fuel) auto
  show ?case unfolding f using readMembers_last[of f "fst x" "snd x"] by simp
next
  case (3 x y zs)
  then obtain f where f: "fuel = Suc f" by (cases fuel) auto
  with 3 have "readMembers f (joinWith '','' (map member (y # zs)) @ ''}'') = Some (y # zs)"
    by (intro "3.IH"(2)) simp_all
  then show ?case
    unfolding f using readMembers_more[of f "fst x" "snd x" "joinWith '','' (map member (y # zs)) @ ''}''"]
    by simp
qed

lemma JSON_parse_stringify: "JSON_parse (JSON_stringify ps) = Some (present ps)"
proof (cases "present ps")
  case Nil
  then show ?thesis
    by (simp add: JSON_stringify_def JSON_parse_def serializeProperties_present)
next
  case (Cons m ms)
  let ?body = "joinWith '','' (map member (present ps)) @ ''}''"
  have ne: "present ps \<noteq> []" using Cons by simp
  have len: "length (present ps) \<le> length ?body"
    using joinWith_length[of "present ps" "'',''"] by simp
  have hd: "\<exists>t. ?body = CHR 0x22 # t"
    using Cons by (cases ms) (simp_all add: member_def quoteJSONString_def)
  then have nb: "CHR ''{'' # ?body \<noteq> ''{}''" by auto
  have "JSON_parse (CHR ''{'' # ?body) = readMembers (length ?body) ?body"
    using nb by (simp add: JSON_parse_def)
  also have "\<dots> = Some (present ps)" by (rule readMembers_joinWith[OF ne len])
  finally show ?thesis by (simp add: JSON_stringify_def serializeProperties_present)
qed

lemma JSON_stringify_inj: "JSON_stringify ps = JSON_stringify qs \<Longrightarrow> present ps = present qs"
  using JSON_parse_stringify[of ps] JSON_parse_stringify[of qs] by simp

lemma map_of_present_absent: "k \<notin> fst ` set ps \<Longrightarrow> map_of (present ps) k = None"
  by (induction ps) (auto simp: present_def map_filter_simps split: option.splits)

lemma map_of_present:
  "distinct (map fst ps) \<Longrightarrow>
     map_of (present ps) k = (case map_of ps k of None \<Rightarrow> None | Some v \<Rightarrow> v)"
proof (induction ps)
  case Nil
  then show ?case by (simp add: present_def)
next
  case (Cons p ps)
  obtain k' v' where p: "p = (k', v')" by (cases p)
  have tl: "present ((k', v') # ps) = (case v' of None \<Rightarrow> present ps | Some v \<Rightarrow> (k', v) # present ps)"
    by (simp add: present_def map_filter_simps split: option.splits)
  show ?case
  proof (cases "k = k'")
    case True
    with Cons.prems p have "k \<notin> fst ` set ps" by auto
    then have "map_of (present ps) k = None" by (rule map_of_present_absent)
    with True p show ?thesis by (simp add: tl split: option.splits)
  next
    case False
    with Cons p show ?thesis by (simp add: tl split: option.splits)
  qed
qed

text \<open>Object literals that define the same properties in another order are the same object.\<close>

lemma defineProperty_commute:
  "propertyName x \<noteq> propertyName y \<Longrightarrow>
     defineProperty x (defineProperty y obj) = defineProperty y (defineProperty x obj)"
  by (cases x; cases y; simp)

lemma objectLiteral_permute:
  assumes "mset ps = mset qs" and "distinct (map propertyName ps)"
  shows "objectLiteral ps = objectLiteral qs"
proof -
  have "fold defineProperty ps = fold defineProperty qs"
  proof (rule fold_multiset_equiv[OF _ assms(1)])
    fix x y assume xy: "x \<in> set ps" "y \<in> set ps"
    show "defineProperty x \<circ> defineProperty y = defineProperty y \<circ> defineProperty x"
    proof (cases "x = y")
      case True then show ?thesis by simp
    next
      case False
      with xy assms(2) have "propertyName x \<noteq> propertyName y"
        by (auto simp: distinct_map inj_on_def)
      then show ?thesis by (auto simp: fun_eq_iff defineProperty_commute)
    qed
  qed
  then show ?thesis by (simp add: objectLiteral_def)
qed

lemma keyProperties_distinct: "distinct (map fst (keyProperties config u x))"
  by (simp add: keyProperties_def)

lemma keyProperties_lookup:
  "map_of (present (keyProperties config u x)) k
     = (case map_of (keyProperties config u x) k of None \<Rightarrow> None | Some v \<Rightarrow> v)"
  by (rule map_of_present[OF keyProperties_distinct])

lemma map_option_eq:
  "inj f \<Longrightarrow> map_option f x = map_option f y \<Longrightarrow> x = y"
  by (cases x; cases y) (auto dest: injD)

lemma keyProperties_fields:
  assumes "present (keyProperties config u a) = present (keyProperties config u' b)"
  shows "u = u'" and "w a = w b" and "h a = h b" and "fit a = fit b" and "format a = format b"
    and "(case quality a of None \<Rightarrow> defaultQualityOf config | Some q \<Rightarrow> q)
          = (case quality b of None \<Rightarrow> defaultQualityOf config | Some q \<Rightarrow> q)"
    and "crop a = crop b" and "bg a = bg b" and "blur a = blur b" and "grayscale a = grayscale b"
    and "rotate a = rotate b" and "placeholder a = placeholder b"
proof -
  have l: "(case map_of (keyProperties config u a) k of None \<Rightarrow> None | Some v \<Rightarrow> v)
      = (case map_of (keyProperties config u' b) k of None \<Rightarrow> None | Some v \<Rightarrow> v)" for k
    using assms keyProperties_lookup[of config u a k] keyProperties_lookup[of config u' b k] by simp
  have js: "inj JString" and jn: "inj JNumber" and jb: "inj JBool" by (simp_all add: inj_def)
  from l[of "''u''"] show "u = u'" by (simp add: keyProperties_def)
  from l[of "''w''"] show "w a = w b" by (simp add: keyProperties_def map_option_eq[OF jn])
  from l[of "''h''"] show "h a = h b" by (simp add: keyProperties_def map_option_eq[OF jn])
  from l[of "''fit''"] show "fit a = fit b" by (simp add: keyProperties_def map_option_eq[OF js])
  from l[of "''f''"] show "format a = format b" by (simp add: keyProperties_def map_option_eq[OF js])
  from l[of "''q''"] show "(case quality a of None \<Rightarrow> defaultQualityOf config | Some q \<Rightarrow> q)
          = (case quality b of None \<Rightarrow> defaultQualityOf config | Some q \<Rightarrow> q)"
    by (simp add: keyProperties_def)
  from l[of "''c''"] show "crop a = crop b" by (simp add: keyProperties_def map_option_eq[OF js])
  from l[of "''bg''"] show "bg a = bg b" by (simp add: keyProperties_def map_option_eq[OF js])
  from l[of "''bl''"] show "blur a = blur b" by (simp add: keyProperties_def map_option_eq[OF jn])
  from l[of "''gs''"] show "grayscale a = grayscale b" by (simp add: keyProperties_def map_option_eq[OF jb])
  from l[of "''r''"] show "rotate a = rotate b" by (simp add: keyProperties_def map_option_eq[OF jn])
  from l[of "''p''"] show "placeholder a = placeholder b" by (simp add: keyProperties_def map_option_eq[OF js])
qed

text \<open>
  Claim C5: the cache key is a deterministic serialization of a fixed set of fields in a
  fixed order.
  \<^item> Two object literals that define the same properties with the same values, in any
    order, get the same key.
  \<^item> Two normalized requests have the same key exactly when they agree on the source
    identity, width, height, fit, format, quality-or-default, crop, background, blur,
    grayscale, rotation and placeholder: equal field values give the identical key, and
    every one of the twelve fields is written into the key.
  \<^item> Read back, the key is the list of these twelve fields under the names u, w, h, fit,
    f, q, c, bg, bl, gs, r, p, in this order, without the fields that are undefined.
\<close>

theorem cache_key_serializes_fields:
  assumes "mset ps = mset qs" and "distinct (map propertyName ps)"
    and "sourceIdentity env a = Some ua" and "sourceIdentity env b = Some ub"
  shows "requestKey config env (objectLiteral ps) = requestKey config env (objectLiteral qs)
       \<and> ((cacheKey config env a = cacheKey config env b)
            = (ua = ub \<and> w a = w b \<and> h a = h b \<and> fit a = fit b \<and> format a = format b
               \<and> (case quality a of None \<Rightarrow> defaultQualityOf config | Some q \<Rightarrow> q)
                   = (case quality b of None \<Rightarrow> defaultQualityOf config | Some q \<Rightarrow> q)
               \<and> crop a = crop b \<and> bg a = bg b \<and> blur a = blur b \<and> grayscale a = grayscale b
               \<and> rotate a = rotate b \<and> placeholder a = placeholder b))
       \<and> Option.bind (cacheKey config env a) JSON_parse
            = Some (present
                [(''u'', Some (JString ua)),
                 (''w'', map_option JNumber (w a)),
                 (''h'', map_option JNumber (h a)),
                 (''fit'', map_option JString (fit a)),
                 (''f'', map_option JString (format a)),
                 (''q'', Some (JNumber (case quality a of None \<Rightarrow> defaultQualityOf config | Some q \<Rightarrow> q))),
                 (''c'', map_option JString (crop a)),
                 (''bg'', map_option JString (bg a)),
                 (''bl'', map_option JNumber (blur a)),
                 (''gs'', map_option JBool (grayscale a)),
                 (''r'', map_option JNumber (rotate a)),
                 (''p'', map_option JString (placeholder a))])"
proof (intro conjI)
  show "requestKey config env (objectLiteral ps) = requestKey config env (objectLiteral qs)"
    by (simp only: objectLiteral_permute[OF assms(1,2)])
next
  have ka: "cacheKey config env a = Some (JSON_stringify (keyProperties config ua a))"
    and kb: "cacheKey config env b = Some (JSON_stringify (keyProperties config ub b))"
    using assms(3,4) by (simp_all add: cacheKey_def)
  show "(cacheKey config env a = cacheKey config env b)
            = (ua = ub \<and> w a = w b \<and> h a = h b \<and> fit a = fit b \<and> format a = format b
               \<and> (case quality a of None \<Rightarrow> defaultQualityOf config | Some q \<Rightarrow> q)
                   = (case quality b of None \<Rightarrow> defaultQualityOf config | Some q \<Rightarrow> q)
               \<and> crop a = crop b \<and> bg a = bg b \<and> blur a = blur b \<and> grayscale a = grayscale b
               \<and> rotate a = rotate b \<and> placeholder a = placeholder b)"
    (is "?l = ?r")
  proof
    assume ?l
    with ka kb have "JSON_stringify (keyProperties config ua a) = JSON_stringify (keyProperties config ub b)"
      by simp
    then have p: "present (keyProperties config ua a) = present (keyProperties config ub b)"
      by (rule JSON_stringify_inj)
    show ?r by (intro conjI keyProperties_fields[OF p])
  next
    assume ?r
    then have "keyProperties config ua a = keyProperties config ub b"
      by (simp add: keyProperties_def)
    with ka kb show ?l by simp
  qed
next
  have ka: "cacheKey config env a = Some (JSON_stringify (keyProperties config ua a))"
    using assms(3) by (simp add: cacheKey_def)
  show "Option.bind (cacheKey config env a) JSON_parse
            = Some (present
                [(''u'', Some (JString ua)),
                 (''w'', map_option JNumber (w a)),
                 (''h'', map_option JNumber (h a)),
                 (''fit'', map_option JString (fit a)),
                 (''f'', map_option JString (format a)),
                 (''q'', Some (JNumber (case quality a of None \<Rightarrow> defaultQualityOf config | Some q \<Rightarrow> q))),
                 (''c'', map_option JString (crop a)),
                 (''bg'', map_option JString (bg a)),
                 (''bl'', map_option JNumber (blur a)),
                 (''gs'', map_option JBool (grayscale a)),
                 (''r'', map_option JNumber (rotate a)),
                 (''p'', map_option JString (placeholder a))])"
    unfolding ka by (simp add: JSON_parse_stringify keyProperties_def)
qed

text \<open>
  Witness for C5: a request that sets all twelve fields, written in two orders; changing
  the height alone changes the key; and the key read back.
\<close>

theorem cache_key_serializes_fields_witness:
  "requestKey emptyConfig (exampleEnv False) (objectLiteral fullRequest) = Some fullKey
   \<and> requestKey emptyConfig (exampleEnv False) (objectLiteral fullRequestReversed) = Some fullKey
   \<and> cacheKey emptyConfig (exampleEnv False) (objectLiteral fullRequest)
       \<noteq> cacheKey emptyConfig (exampleEnv False) ((objectLiteral fullRequest)\<lparr>h := Some 601\<rparr>)
   \<and> JSON_parse fullKey
       = Some [(''u'', JString ''https://cdn.example.com/x.png''), (''w'', JNumber 800),
               (''h'', JNumber 600), (''fit'', JString ''contain''), (''f'', JString ''webp''),
               (''q'', JNumber 70), (''c'', JString ''smart''), (''bg'', JString ''#fff''),
               (''bl'', JNumber 5), (''gs'', JBool True), (''r'', JNumber 90),
               (''p'', JString ''none'')]"
proof -
  let ?a = "objectLiteral fullRequest"
  let ?b = "(objectLiteral fullRequest)\<lparr>h := Some 601\<rparr>"
  have m: "mset fullRequest = mset fullRequestReversed"
  proof -
    have e: "fullRequestReversed = rev fullRequest"
      by (simp add: fullRequest_def fullRequestReversed_def)
    show ?thesis unfolding e by (rule mset_rev[symmetric])
  qed
  have d: "distinct (map propertyName fullRequest)" by (simp add: fullRequest_def)
  have sa: "sourceIdentity (exampleEnv False) ?a = Some ''https://cdn.example.com/x.png''"
    and sb: "sourceIdentity (exampleEnv False) ?b = Some ''https://cdn.example.com/x.png''"
    by (simp_all add: sourceIdentity_def objectLiteral_def fullRequest_def example_defs)
  have ra: "requestKey emptyConfig (exampleEnv False) ?a = Some fullKey"
    by (simp add: objectLiteral_def fullRequest_def fullKey_def key_defs schema_defs json_defs example_defs)
  have ca: "cacheKey emptyConfig (exampleEnv False) ?a = Some fullKey"
    by (simp add: objectLiteral_def fullRequest_def fullKey_def key_defs json_defs example_defs)
  have ha: "h ?a = Some 600" by (simp add: objectLiteral_def fullRequest_def)
  have fields: "present
                [(''u'', Some (JString ''https://cdn.example.com/x.png'')),
                 (''w'', map_option JNumber (w ?a)),
                 (''h'', map_option JNumber (h ?a)),
                 (''fit'', map_option JString (fit ?a)),
                 (''f'', map_option JString (format ?a)),
                 (''q'', Some (JNumber (case quality ?a of None \<Rightarrow> defaultQualityOf emptyConfig | Some q \<Rightarrow> q))),
                 (''c'', map_option JString (crop ?a)),
                 (''bg'', map_option JString (bg ?a)),
                 (''bl'', map_option JNumber (blur ?a)),
                 (''gs'', map_option JBool (grayscale ?a)),
                 (''r'', map_option JNumber (rotate ?a)),
                 (''p'', map_option JString (placeholder ?a))]
      = [(''u'', JString ''https://cdn.example.com/x.png''), (''w'', JNumber 800),
               (''h'', JNumber 600), (''fit'', JString ''contain''), (''f'', JString ''webp''),
               (''q'', JNumber 70), (''c'', JString ''smart''), (''bg'', JString ''#fff''),
               (''bl'', JNumber 5), (''gs'', JBool True), (''r'', JNumber 90),
               (''p'', JString ''none'')]"
    by (simp add: present_def map_filter_simps objectLiteral_def fullRequest_def)
  note t = cache_key_serializes_fields[OF m d sa sb, where config = emptyConfig]
  from t have 1: "requestKey emptyConfig (exampleEnv False) (objectLiteral fullRequest)
      = requestKey emptyConfig (exampleEnv False) (objectLiteral fullRequestReversed)"
    by (rule conjunct1)
  from t have "(cacheKey emptyConfig (exampleEnv False) ?a = cacheKey emptyConfig (exampleEnv False) ?b)
            = (''https://cdn.example.com/x.png'' = ''https://cdn.example.com/x.png''
               \<and> w ?a = w ?b \<and> h ?a = h ?b \<and> fit ?a = fit ?b \<and> format ?a = format ?b
               \<and> (case quality ?a of None \<Rightarrow> defaultQualityOf emptyConfig | Some q \<Rightarrow> q)
                   = (case quality ?b of None \<Rightarrow> defaultQualityOf emptyConfig | Some q \<Rightarrow> q)
               \<and> crop ?a = crop ?b \<and> bg ?a = bg ?b \<and> blur ?a = blur ?b \<and> grayscale ?a = grayscale ?b
               \<and> rotate ?a = rotate ?b \<and> placeholder ?a = placeholder ?b)"
    by (rule conjunct1[OF conjunct2])
  with ha have 2: "cacheKey emptyConfig (exampleEnv False) ?a \<noteq> cacheKey emptyConfig (exampleEnv False) ?b"
    by simp
  from t have "Option.bind (cacheKey emptyConfig (exampleEnv False) ?a) JSON_parse
            = Some (present
                [(''u'', Some (JString ''https://cdn.example.com/x.png'')),
                 (''w'', map_option JNumber (w ?a)),
                 (''h'', map_option JNumber (h ?a)),
                 (''fit'', map_option JString (fit ?a)),
                 (''f'', map_option JString (format ?a)),
                 (''q'', Some (JNumber (case quality ?a of None \<Rightarrow> defaultQualityOf emptyConfig | Some q \<Rightarrow> q))),
                 (''c'', map_option JString (crop ?a)),
                 (''bg'', map_option JString (bg ?a)),
                 (''bl'', map_option JNumber (blur ?a)),
                 (''gs'', map_option JBool (grayscale ?a)),
                 (''r'', map_option JNumber (rotate ?a)),
                 (''p'', map_option JString (placeholder ?a))])"
    by (rule conjunct2[OF conjunct2])
  then have 3: "JSON_parse fullKey
      = Some [(''u'', JString ''https://cdn.example.com/x.png''), (''w'', JNumber 800),
               (''h'', JNumber 600), (''fit'', JString ''contain''), (''f'', JString ''webp''),
               (''q'', JNumber 70), (''c'', JString ''smart''), (''bg'', JString ''#fff''),
               (''bl'', JNumber 5), (''gs'', JBool True), (''r'', JNumber 90),
               (''p'', JString ''none'')]"
    unfolding ca fields by simp
  from ra 1 2 3 show ?thesis by (simp only: simp_thms)
qed

section \<open>The allowlist\<close>

text \<open>
  Claim C6 as stated (with an allowlist and a URL, the request fails with the allowlist's
  error exactly when the hostname ends with no entry) is false for an input that the schema
  rejects: \<^verbatim>\<open>parse\<close> throws before the allowlist is consulted, so a request for
  \<^verbatim>\<open>evil.com\<close> with \<^verbatim>\<open>w = 0\<close> fails with the schema's error, not with the allowlist's.
\<close>

theorem invalid_input_fails_before_allowlist:
  "newURL (exampleEnv False) ''https://evil.com/x.png''
     = Some \<lparr>hostname = ''evil.com'', href = ''https://evil.com/x.png''\<rparr>
   \<and> \<not> endsWith ''evil.com'' ''example.com''
   \<and> process (emptyConfig\<lparr>whitelist := Some [''example.com'']\<rparr>) None (exampleEnv False)
       (emptyInput\<lparr>url := Some ''https://evil.com/x.png'', w := Some 0\<rparr>) (emptyWorld ())
     = (Inl ZodError, emptyWorld ())"
  by (simp add: process_defs example_defs suffix_to_prefix)

text \<open>
  Claim C6, amended: with an allowlist configured and an input that passes the schema and
  has a (non-empty) URL, \<^verbatim>\<open>process\<close> fails with the error "Source URL not allowed", whose
  status code is 403, exactly when the URL's hostname ends with no entry of the allowlist.
\<close>

theorem allowlist_enforced:
  assumes "whitelist config = Some domains"
    and "querySchema_parse env input = Inr parsed"
    and "url input = Some u" and "u \<noteq> []" and "newURL env u = Some parsedUrl"
  shows "(fst (process config cache env input world) = Inl SourceUrlNotAllowed)
           = (\<not> (\<exists>d \<in> set domains. endsWith (hostname parsedUrl) d))
         \<and> statusCode SourceUrlNotAllowed = Some 403"
proof -
  have u: "url parsed = Some u" using assms(2,3) by (simp add: parse_url)
  have na: "notAllowed config env parsed = (\<not> (\<exists>d \<in> set domains. endsWith (hostname parsedUrl) d))"
    using assms(1,4,5) u by (simp add: notAllowed_def allowed_def list_ex_iff)
  show ?thesis
  proof (cases "notAllowed config env parsed")
    case True
    then have "fst (process config cache env input world) = Inl SourceUrlNotAllowed"
      using assms(2,4) u by (simp add: process_def)
    with True na show ?thesis by simp
  next
    case False
    then have "fst (process config cache env input world) \<noteq> Inl SourceUrlNotAllowed"
      using assms(2) by (rule_tac process_not_SourceUrlNotAllowed) auto
    with False na show ?thesis by simp
  qed
qed

text \<open>
  Witness for C6: with the allowlist \<^verbatim>\<open>["example.com"]\<close>, the host \<^verbatim>\<open>evil.com\<close> is rejected
  and the host \<^verbatim>\<open>cdn.example.com\<close> is not.
\<close>

theorem allowlist_enforced_witness:
  "fst (process (emptyConfig\<lparr>whitelist := Some [''example.com'']\<rparr>) None (exampleEnv False)
          (emptyInput\<lparr>url := Some ''https://evil.com/x.png''\<rparr>) (emptyWorld ()))
     = Inl SourceUrlNotAllowed
   \<and> fst (process (emptyConfig\<lparr>whitelist := Some [''example.com'']\<rparr>) None (exampleEnv False)
          (emptyInput\<lparr>url := Some ''https://cdn.example.com/x.png''\<rparr>) (emptyWorld ()))
     \<noteq> Inl SourceUrlNotAllowed
   \<and> statusCode SourceUrlNotAllowed = Some 403"
proof -
  let ?config = "emptyConfig\<lparr>whitelist := Some [''example.com'']\<rparr>"
  let ?evil = "emptyInput\<lparr>url := Some ''https://evil.com/x.png''\<rparr>"
  let ?cdn = "emptyInput\<lparr>url := Some ''https://cdn.example.com/x.png''\<rparr>"
  have w: "whitelist ?config = Some [''example.com'']" by (simp add: emptyConfig_def)
  have p1: "querySchema_parse (exampleEnv False) ?evil =
      Inr (?evil\<lparr>fit := Some ''cover''\<rparr>)"
    by (simp add: schema_defs example_defs)
  have p2: "querySchema_parse (exampleEnv False) ?cdn =
      Inr (?cdn\<lparr>fit := Some ''cover''\<rparr>)"
    by (simp add: schema_defs example_defs)
  have u1: "newURL (exampleEnv False) ''https://evil.com/x.png''
      = Some \<lparr>hostname = ''evil.com'', href = ''https://evil.com/x.png''\<rparr>"
    by (simp add: example_defs)
  have u2: "newURL (exampleEnv False) ''https://cdn.example.com/x.png''
      = Some \<lparr>hostname = ''cdn.example.com'', href = ''https://cdn.example.com/x.png''\<rparr>"
    by (simp add: example_defs)
  have e1: "\<not> endsWith ''evil.com'' ''example.com''"
    by (simp add: endsWith_def suffix_to_prefix)
  have e2: "endsWith ''cdn.example.com'' ''example.com''"
    by (simp add: endsWith_def suffix_to_prefix)
  show ?thesis
    using allowlist_enforced[OF w p1 _ _ u1, of None "emptyWorld ()"]
      allowlist_enforced[OF w p2 _ _ u2, of None "emptyWorld ()"] e1 e2
    by (simp add: emptyInput_def)
qed

section \<open>Reading from the disk cache\<close>

lemma disk_get_after_set:
  assumes "disk_set sha1 cfg key result disk = (Fulfilled (), disk')"
    and "\<not> expired (now disk) (map_option (\<lambda>t. now disk + t) (ttlMs cfg))"
  shows "disk_get sha1 cfg key disk' = (Fulfilled (Some result), disk')"
  using assms by (auto simp: disk_set_def disk_get_def Let_def split: if_splits)

text \<open>
  Claim C7 as stated (a miss of the disk cache never raises) is false: \<^verbatim>\<open>ensureDir\<close> is
  awaited outside the \<^verbatim>\<open>try\<close> block, so when the cache directory cannot be created
  \<^verbatim>\<open>get\<close> rejects, also for a key that has no file.
\<close>

theorem disk_get_rejects_when_mkdir_rejects:
  "files (exampleDisk\<lparr>mkdirRejects := True\<rparr>) (fileForKey exampleDigest exampleCacheConfig ''k'') = None
   \<and> fst (disk_get exampleDigest exampleCacheConfig ''k'' (exampleDisk\<lparr>mkdirRejects := True\<rparr>)) = Rejected"
  by (simp add: disk_defs example_defs)

text \<open>
  Claim C7, amended: when the cache directory can be created, \<^verbatim>\<open>get\<close> on a record whose
  expiry timestamp is non-zero and in the past returns \<^verbatim>\<open>null\<close> and removes the file
  (the file stays when \<^verbatim>\<open>fs.rm\<close> fails, which is ignored); and \<^verbatim>\<open>get\<close> on a missing,
  unreadable or malformed file returns \<^verbatim>\<open>null\<close> and leaves the disk as it was.
\<close>

theorem disk_get_absent:
  assumes "\<not> mkdirRejects disk" and "file = fileForKey sha1 cfg key"
  shows "(files disk file = Some (Stored r) \<and> expiresAt r = Some e \<and> e \<noteq> 0 \<and> e < now disk
            \<longrightarrow> fst (disk_get sha1 cfg key disk) = Fulfilled None
                \<and> snd (disk_get sha1 cfg key disk)
                    = (if rmRejects disk then disk else disk\<lparr>files := (files disk)(file := None)\<rparr>)
                \<and> (\<not> rmRejects disk \<longrightarrow> files (snd (disk_get sha1 cfg key disk)) file = None))
       \<and> (files disk file = None \<or> files disk file = Some Unreadable \<or> files disk file = Some Malformed
            \<longrightarrow> disk_get sha1 cfg key disk = (Fulfilled None, disk))"
  using assms by (auto simp: disk_get_def expired_def Let_def)

text \<open>Witness for C7: an expired record, a missing file and a malformed file.\<close>

theorem disk_get_absent_witness:
  "disk_get exampleDigest exampleCacheConfig ''k''
       (exampleDisk\<lparr>files := [''c/k.json'' \<mapsto> Stored expiredRecord]\<rparr>)
     = (Fulfilled None, exampleDisk\<lparr>files := [''c/k.json'' \<mapsto> Stored expiredRecord](''c/k.json'' := None)\<rparr>)
   \<and> files (snd (disk_get exampleDigest exampleCacheConfig ''k''
       (exampleDisk\<lparr>files := [''c/k.json'' \<mapsto> Stored expiredRecord]\<rparr>))) ''c/k.json'' = None
   \<and> disk_get exampleDigest exampleCacheConfig ''k'' exampleDisk = (Fulfilled None, exampleDisk)
   \<and> disk_get exampleDigest exampleCacheConfig ''k'' (exampleDisk\<lparr>files := [''c/k.json'' \<mapsto> Malformed]\<rparr>)
       = (Fulfilled None, exampleDisk\<lparr>files := [''c/k.json'' \<mapsto> Malformed]\<rparr>)"
proof -
  let ?d1 = "exampleDisk\<lparr>files := [''c/k.json'' \<mapsto> Stored expiredRecord]\<rparr>"
  let ?d3 = "exampleDisk\<lparr>files := [''c/k.json'' \<mapsto> Malformed]\<rparr>"
  have f: "''c/k.json'' = fileForKey exampleDigest exampleCacheConfig ''k''"
    by (simp add: fileForKey_def example_defs)
  have m1: "\<not> mkdirRejects ?d1" and m2: "\<not> mkdirRejects exampleDisk" and m3: "\<not> mkdirRejects ?d3"
    by (simp_all add: exampleDisk_def)
  have a: "files ?d1 ''c/k.json'' = Some (Stored expiredRecord) \<and> expiresAt expiredRecord = Some 500
      \<and> (500::int) \<noteq> 0 \<and> 500 < now ?d1"
    by (simp add: exampleDisk_def expiredRecord_def)
  have r: "\<not> rmRejects ?d1" by (simp add: exampleDisk_def)
  have b: "files exampleDisk ''c/k.json'' = None" by (simp add: exampleDisk_def)
  have c: "files ?d3 ''c/k.json'' = Some Malformed" by simp
  from disk_get_absent[OF m1 f, of expiredRecord 500] a r
  have 1: "fst (disk_get exampleDigest exampleCacheConfig ''k'' ?d1) = Fulfilled None"
    and 2: "snd (disk_get exampleDigest exampleCacheConfig ''k'' ?d1)
             = ?d1\<lparr>files := (files ?d1)(''c/k.json'' := None)\<rparr>"
    and 3: "files (snd (disk_get exampleDigest exampleCacheConfig ''k'' ?d1)) ''c/k.json'' = None"
    by simp_all
  from disk_get_absent[OF m2 f, of expiredRecord 500] b
  have 4: "disk_get exampleDigest exampleCacheConfig ''k'' exampleDisk = (Fulfilled None, exampleDisk)"
    by simp
  from disk_get_absent[OF m3 f, of expiredRecord 500] c
  have 5: "disk_get exampleDigest exampleCacheConfig ''k'' ?d3 = (Fulfilled None, ?d3)"
    by simp
  from 1 2 have "disk_get exampleDigest exampleCacheConfig ''k'' ?d1
      = (Fulfilled None, ?d1\<lparr>files := (files ?d1)(''c/k.json'' := None)\<rparr>)"
    by (simp add: prod_eq_iff)
  with 3 4 5 show ?thesis by simp
qed

section \<open>Idempotence\<close>

text \<open>
  Claim C8: when a call of \<^verbatim>\<open>process\<close> has returned a result and the cache holds that
  result under the request's key, a second call with the same input returns the same
  result, and neither the fetcher nor the engine is called again.
\<close>

theorem second_call_served_from_cache:
  assumes first: "process config (Some layer) env input world = (Inr result, world1)"
    and key: "requestKey config env input = Some key"
    and populated: "cache_get layer key (cacheState world1) = (Fulfilled (Some result), st)"
  shows "process config (Some layer) env input world1 = (Inr result, world1\<lparr>cacheState := st\<rparr>)
       \<and> fetchCalls (snd (process config (Some layer) env input world1)) = fetchCalls world1
       \<and> sharpCalls (snd (process config (Some layer) env input world1)) = sharpCalls world1"
proof -
  from first obtain parsed key' where p: "querySchema_parse env input = Inr parsed"
    and g: "buffer input \<noteq> None \<or> truthyStr (url parsed)" "\<not> notAllowed config env parsed"
    and k: "cacheKey config env parsed = Some key'"
    by (rule process_result_checks)
  from key p k have "key' = key" by (simp add: requestKey_def)
  with k populated have
    "process config (Some layer) env input world1 = (Inr result, world1\<lparr>cacheState := st\<rparr>)"
    by (intro process_hit[OF p g]) simp_all
  then show ?thesis by simp
qed

text \<open>Witness for C8: two calls on a disk cache; the second leaves the world as it was.\<close>

theorem second_call_served_from_cache_witness:
  \<open>process emptyConfig (Some (createDiskCache exampleDigest exampleCacheConfig)) (exampleEnv False)
       (emptyInput\<lparr>buffer := Some [1, 2, 3]\<rparr>) (emptyWorld exampleDisk)
     = (Inr exampleResult,
        \<lparr>cacheState = diskAfterFirstCall, fetchCalls = [], sharpCalls = [([1, 2, 3], [])]\<rparr>)
   \<and> process emptyConfig (Some (createDiskCache exampleDigest exampleCacheConfig)) (exampleEnv False)
       (emptyInput\<lparr>buffer := Some [1, 2, 3]\<rparr>)
       \<lparr>cacheState = diskAfterFirstCall, fetchCalls = [], sharpCalls = [([1, 2, 3], [])]\<rparr>
     = (Inr exampleResult,
        \<lparr>cacheState = diskAfterFirstCall, fetchCalls = [], sharpCalls = [([1, 2, 3], [])]\<rparr>)\<close>
proof -
  let ?layer = "createDiskCache exampleDigest exampleCacheConfig"
  let ?input = "emptyInput\<lparr>buffer := Some [1, 2, 3]\<rparr>"
  let ?w1 = "\<lparr>cacheState = diskAfterFirstCall, fetchCalls = [], sharpCalls = [([1, 2, 3], [])]\<rparr>"
  have call: "process emptyConfig (Some ?layer) (exampleEnv False) ?input (emptyWorld exampleDisk)
     = (Inr exampleResult, ?w1)"
    by (simp add: process_defs json_defs example_defs disk_defs exampleResult_def diskAfterFirstCall_def)
  have key: \<open>requestKey emptyConfig (exampleEnv False) ?input = Some ''{"u":"buffer","fit":"cover","q":80}''\<close>
    by (simp add: key_defs schema_defs json_defs example_defs)
  have hit: \<open>cache_get ?layer ''{"u":"buffer","fit":"cover","q":80}'' (cacheState ?w1)
      = (Fulfilled (Some exampleResult), diskAfterFirstCall)\<close>
    by (simp add: disk_defs example_defs diskAfterFirstCall_def)
  from second_call_served_from_cache[OF call key hit]
  have "process emptyConfig (Some ?layer) (exampleEnv False) ?input ?w1 = (Inr exampleResult, ?w1)"
    by simp
  with call show ?thesis by (simp only: simp_thms)
qed

section \<open>Source identity\<close>

text \<open>
  Claim C9: the key does not depend on the buffer; with a URL the key's source identity is
  the URL's \<^verbatim>\<open>href\<close>, also when a buffer is supplied, and then the fetcher is not called
  and the engine, if it runs, runs on the buffer; without a URL the source identity is
  the sentinel \<^verbatim>\<open>"buffer"\<close>; and a call with other bytes and no URL is served the entry
  found under the request's key.
\<close>

theorem key_identity_ignores_buffer:
  assumes parse: "querySchema_parse env input = Inr parsed"
  shows "requestKey config env (input\<lparr>buffer := other\<rparr>) = requestKey config env input
       \<and> (url input = Some u \<and> u \<noteq> [] \<and> newURL env u = Some parsedUrl
            \<longrightarrow> requestKey config env input
                  = Some (JSON_stringify (keyProperties config (href parsedUrl) parsed)))
       \<and> (buffer input = Some bytes
            \<longrightarrow> fetchCalls (snd (process config cache env input world)) = fetchCalls world
                \<and> (sharpCalls (snd (process config cache env input world)) = sharpCalls world
                   \<or> sharpCalls (snd (process config cache env input world))
                        = sharpCalls world @ [(bytes, sharpPipeline config parsed)]))
       \<and> (\<not> truthyStr (url input)
            \<longrightarrow> requestKey config env input
                  = Some (JSON_stringify (keyProperties config ''buffer'' parsed)))
       \<and> (url input = None \<and> requestKey config env input = Some key
              \<and> cache_get layer key (cacheState world) = (Fulfilled (Some cached), st)
            \<longrightarrow> process config (Some layer) env (input\<lparr>buffer := Some otherBytes\<rparr>) world
                  = (Inr cached, world\<lparr>cacheState := st\<rparr>))"
proof (intro conjI impI)
  show "requestKey config env (input\<lparr>buffer := other\<rparr>) = requestKey config env input"
    by (rule requestKey_ignores_buffer)
next
  assume "url input = Some u \<and> u \<noteq> [] \<and> newURL env u = Some parsedUrl"
  then show "requestKey config env input
      = Some (JSON_stringify (keyProperties config (href parsedUrl) parsed))"
    using parse by (simp add: requestKey_def cacheKey_url parse_url)
next
  assume b: "buffer input = Some bytes"
  from process_with_buffer[OF parse b, of config cache world]
  show "fetchCalls (snd (process config cache env input world)) = fetchCalls world"
    and "sharpCalls (snd (process config cache env input world)) = sharpCalls world
          \<or> sharpCalls (snd (process config cache env input world))
               = sharpCalls world @ [(bytes, sharpPipeline config parsed)]"
    by simp_all
next
  assume "\<not> truthyStr (url input)"
  then show "requestKey config env input = Some (JSON_stringify (keyProperties config ''buffer'' parsed))"
    using parse by (simp add: requestKey_def cacheKey_buffer_sentinel parse_url)
next
  assume a: "url input = None \<and> requestKey config env input = Some key
              \<and> cache_get layer key (cacheState world) = (Fulfilled (Some cached), st)"
  let ?input2 = "input\<lparr>buffer := Some otherBytes\<rparr>"
  have p2: "querySchema_parse env ?input2 = Inr parsed" using parse by (simp add: parse_ignores_buffer)
  have u: "url parsed = None" using parse a by (simp add: parse_url)
  have g: "buffer ?input2 \<noteq> None \<or> truthyStr (url parsed)" by simp
  have na: "\<not> notAllowed config env parsed" using u by (simp add: notAllowed_def split: option.splits)
  have k: "cacheKey config env parsed = Some key" using a parse by (simp add: requestKey_def)
  from a show "process config (Some layer) env ?input2 world = (Inr cached, world\<lparr>cacheState := st\<rparr>)"
    by (intro process_hit[OF p2 g na k]) simp
qed

text \<open>
  Witness for C9: a request with a URL and a buffer, and a request with the bytes 9, 9
  that is served the result stored for the bytes 1, 2, 3.
\<close>

theorem key_identity_ignores_buffer_witness:
  \<open>requestKey emptyConfig (exampleEnv False)
       (emptyInput\<lparr>url := Some ''https://cdn.example.com/x.png'', buffer := Some [1, 2, 3]\<rparr>)
     = Some ''{"u":"https://cdn.example.com/x.png","fit":"cover","q":80}''
   \<and> requestKey emptyConfig (exampleEnv False)
       (emptyInput\<lparr>url := Some ''https://cdn.example.com/x.png'', buffer := Some [9, 9]\<rparr>)
     = Some ''{"u":"https://cdn.example.com/x.png","fit":"cover","q":80}''
   \<and> fetchCalls (snd (process emptyConfig None (exampleEnv False)
       (emptyInput\<lparr>url := Some ''https://cdn.example.com/x.png'', buffer := Some [1, 2, 3]\<rparr>)
       (emptyWorld ()))) = []
   \<and> sharpCalls (snd (process emptyConfig None (exampleEnv False)
       (emptyInput\<lparr>url := Some ''https://cdn.example.com/x.png'', buffer := Some [1, 2, 3]\<rparr>)
       (emptyWorld ()))) = [([1, 2, 3], [])]
   \<and> requestKey emptyConfig (exampleEnv False) (emptyInput\<lparr>buffer := Some [1, 2, 3]\<rparr>)
     = Some ''{"u":"buffer","fit":"cover","q":80}''
   \<and> process emptyConfig (Some (createDiskCache exampleDigest exampleCacheConfig)) (exampleEnv False)
       (emptyInput\<lparr>buffer := Some [9, 9]\<rparr>) (emptyWorld diskAfterFirstCall)
     = (Inr exampleResult, emptyWorld diskAfterFirstCall)\<close>
proof -
  let ?layer = "createDiskCache exampleDigest exampleCacheConfig"
  let ?a = "emptyInput\<lparr>url := Some ''https://cdn.example.com/x.png'', buffer := Some [1, 2, 3]\<rparr>"
  let ?pa = "emptyInput\<lparr>url := Some ''https://cdn.example.com/x.png'', fit := Some ''cover''\<rparr>"
  let ?b = "emptyInput\<lparr>buffer := Some [1, 2, 3]\<rparr>"
  let ?pb = "emptyInput\<lparr>fit := Some ''cover''\<rparr>"
  have pa: "querySchema_parse (exampleEnv False) ?a = Inr ?pa"
    by (simp add: schema_defs example_defs)
  have pb: "querySchema_parse (exampleEnv False) ?b = Inr ?pb"
    by (simp add: schema_defs example_defs)
  have ua: "url ?a = Some ''https://cdn.example.com/x.png'' \<and> ''https://cdn.example.com/x.png'' \<noteq> []
      \<and> newURL (exampleEnv False) ''https://cdn.example.com/x.png''
          = Some \<lparr>hostname = ''cdn.example.com'', href = ''https://cdn.example.com/x.png''\<rparr>"
    by (simp add: example_defs)
  have ba: "buffer ?a = Some [1, 2, 3]" by simp
  have ub: "\<not> truthyStr (url ?b)" "url ?b = None" by (simp_all add: emptyInput_def)
  have ka: \<open>JSON_stringify (keyProperties emptyConfig
        (href \<lparr>hostname = ''cdn.example.com'', href = ''https://cdn.example.com/x.png''\<rparr>) ?pa)
      = ''{"u":"https://cdn.example.com/x.png","fit":"cover","q":80}''\<close>
    by (simp add: key_defs json_defs example_defs)
  have kb: \<open>JSON_stringify (keyProperties emptyConfig ''buffer'' ?pb)
      = ''{"u":"buffer","fit":"cover","q":80}''\<close>
    by (simp add: key_defs json_defs example_defs)
  have sp: "sharpPipeline emptyConfig ?pa = []"
    by (simp add: pipeline_defs example_defs)
  have hit: \<open>cache_get ?layer ''{"u":"buffer","fit":"cover","q":80}'' (cacheState (emptyWorld diskAfterFirstCall))
      = (Fulfilled (Some exampleResult), diskAfterFirstCall)\<close>
    by (simp add: disk_defs example_defs diskAfterFirstCall_def)
  have ran: "sharpCalls (snd (process emptyConfig None (exampleEnv False) ?a (emptyWorld ()))) \<noteq> []"
    by (simp add: process_defs json_defs example_defs)
  note ta = key_identity_ignores_buffer[OF pa, where config = emptyConfig and cache = None
      and world = "emptyWorld ()" and bytes = "[1, 2, 3]" and u = "''https://cdn.example.com/x.png''"
      and parsedUrl = "\<lparr>hostname = ''cdn.example.com'', href = ''https://cdn.example.com/x.png''\<rparr>"
      and other = "Some [9, 9]"]
  note tb = key_identity_ignores_buffer[OF pb, where config = emptyConfig and layer = ?layer
      and world = "emptyWorld diskAfterFirstCall" and otherBytes = "[9, 9]"
      and key = \<open>''{"u":"buffer","fit":"cover","q":80}''\<close> and cached = exampleResult
      and st = diskAfterFirstCall]
  from ta ua ka have 1: \<open>requestKey emptyConfig (exampleEnv False) ?a
      = Some ''{"u":"https://cdn.example.com/x.png","fit":"cover","q":80}''\<close>
    by simp
  from ta 1 have 2: \<open>requestKey emptyConfig (exampleEnv False) (?a\<lparr>buffer := Some [9, 9]\<rparr>)
      = Some ''{"u":"https://cdn.example.com/x.png","fit":"cover","q":80}''\<close>
    by simp
  from ta ba have 3: "fetchCalls (snd (process emptyConfig None (exampleEnv False) ?a (emptyWorld ()))) = []"
    by (simp add: emptyWorld_def)
  from ta ba ran sp have 4: "sharpCalls (snd (process emptyConfig None (exampleEnv False) ?a (emptyWorld ())))
      = [([1, 2, 3], [])]"
    by (simp add: emptyWorld_def)
  from tb ub kb have 5: \<open>requestKey emptyConfig (exampleEnv False) ?b
      = Some ''{"u":"buffer","fit":"cover","q":80}''\<close>
    by simp
  from tb ub 5 hit have 6: "process emptyConfig (Some ?layer) (exampleEnv False) (?b\<lparr>buffer := Some [9, 9]\<rparr>)
      (emptyWorld diskAfterFirstCall) = (Inr exampleResult, emptyWorld diskAfterFirstCall)"
    by (simp add: emptyWorld_def)
  from 1 2 3 4 5 6 show ?thesis by simp
qed

section \<open>Formats that are not allowed\<close>

lemma selectedFormat_disallowed:
  "format parsed = Some f \<Longrightarrow> f \<notin> allowedFormats config \<Longrightarrow> selectedFormat config parsed = None"
  by (simp add: selectedFormat_def)

lemma sharpPipeline_disallowed:
  assumes "selectedFormat config parsed = None"
  shows "sharpPipeline config parsed = sharpPipeline config (parsed\<lparr>format := None\<rparr>)"
proof -
  have "selectedFormat config (parsed\<lparr>format := None\<rparr>) = None" by (simp add: selectedFormat_def)
  with assms show ?thesis by (simp add: sharpPipeline_def buildSharpPipeline_def)
qed

lemma transformAndStore_disallowed:
  assumes "selectedFormat config parsed = None"
  shows "transformAndStore config cache env input parsed key world
           = transformAndStore config cache env input (parsed\<lparr>format := None\<rparr>) key world"
proof -
  have s: "selectedFormat config (parsed\<lparr>format := None\<rparr>) = None" by (simp add: selectedFormat_def)
  have o: "obtainSource env input (parsed\<lparr>format := None\<rparr>) world = obtainSource env input parsed world"
    by (simp add: obtainSource_def cong: option.case_cong)
  show ?thesis
    unfolding transformAndStore_def sharpPipeline_disallowed[OF assms, symmetric] s assms o
    by (rule refl)
qed

lemma transformAndStore_no_cache_key:
  "transformAndStore config None env input parsed key world
     = transformAndStore config None env input parsed key' world"
  unfolding transformAndStore_def store_None by (rule refl)

lemma process_no_cache_disallowed:
  assumes parse: "querySchema_parse env input = Inr parsed"
    and sel: "selectedFormat config parsed = None"
  shows "process config None env input world = process config None env (input\<lparr>format := None\<rparr>) world"
proof -
  let ?input' = "input\<lparr>format := None\<rparr>" and ?parsed' = "parsed\<lparr>format := None\<rparr>"
  have p': "querySchema_parse env ?input' = Inr ?parsed'" by (rule parse_without_format[OF parse])
  have na: "notAllowed config env ?parsed' = notAllowed config env parsed" by (simp add: notAllowed_def cong: option.case_cong)
  have si: "sourceIdentity env ?parsed' = sourceIdentity env parsed"
    by (simp add: sourceIdentity_def cong: option.case_cong)
  have e: "enforceMaxDimensions config ?input' = (enforceMaxDimensions config input)\<lparr>format := None\<rparr>"
    by (simp add: enforceMaxDimensions_def)
  have t: "transformAndStore config None env (enforceMaxDimensions config ?input') ?parsed' k' world
      = transformAndStore config None env (enforceMaxDimensions config input) parsed k world" for k k'
  proof -
    have "transformAndStore config None env (enforceMaxDimensions config ?input') ?parsed' k' world
        = transformAndStore config None env (enforceMaxDimensions config input) ?parsed' k' world"
      by (rule transformAndStore_buffer) (simp add: e)
    also have "\<dots> = transformAndStore config None env (enforceMaxDimensions config input) parsed k' world"
      by (rule transformAndStore_disallowed[OF sel, symmetric])
    also have "\<dots> = transformAndStore config None env (enforceMaxDimensions config input) parsed k world"
      by (rule transformAndStore_no_cache_key)
    finally show ?thesis .
  qed
  show ?thesis
  proof (cases "sourceIdentity env parsed")
    case None
    with parse p' na si show ?thesis by (simp add: process_def cacheKey_def)
  next
    case (Some u)
    with parse p' na si show ?thesis
      by (simp add: process_def cacheKey_def lookup_def
          t[of "JSON_stringify (keyProperties config u ?parsed')"
               "JSON_stringify (keyProperties config u parsed)"])
  qed
qed

text \<open>
  Claim C10 as stated (a format outside the allowed set never raises an error) is false
  for a format outside the schema's four: \<^verbatim>\<open>gif\<close> is a \<^verbatim>\<open>SupportedFormat\<close>, it is not in the
  default allowed set, and the schema rejects it.
\<close>

theorem format_outside_schema_is_rejected:
  "''gif'' \<notin> allowedFormats emptyConfig
   \<and> process emptyConfig None (exampleEnv False)
       (emptyInput\<lparr>buffer := Some [1, 2, 3], format := Some ''gif''\<rparr>) (emptyWorld ())
     = (Inl ZodError, emptyWorld ())"
  by (simp add: process_defs example_defs)

text \<open>
  Claim C10, amended: for an input that passes the schema (so the format is one of webp,
  avif, jpeg, png) and whose format is not in the allowed set, no format is selected, the
  calls on the engine are those of the request without a format (no encoder call),
  without a cache the whole call equals the call without the format, the content type is
  that of the engine's output format, and the cache key records the requested format.
\<close>

theorem disallowed_format_skipped:
  assumes parse: "querySchema_parse env input = Inr parsed"
    and fmt: "format input = Some f" and dis: "f \<notin> allowedFormats config"
  shows "selectedFormat config parsed = None
       \<and> sharpPipeline config parsed = sharpPipeline config (parsed\<lparr>format := None\<rparr>)
       \<and> transformAndStore config cache env input parsed key world
           = transformAndStore config cache env input (parsed\<lparr>format := None\<rparr>) key world
       \<and> process config None env input world = process config None env (input\<lparr>format := None\<rparr>) world
       \<and> contentType (assembleResult (selectedFormat config parsed) out)
           = (if info_format out \<noteq> [] then formatToContentType (Some (info_format out))
              else ''application/octet-stream'')
       \<and> requestKey config env input
           = map_option (\<lambda>u. JSON_stringify (keyProperties config u parsed)) (sourceIdentity env parsed)
       \<and> (''f'', Some (JString f)) \<in> set (keyProperties config u parsed)"
proof -
  have pf: "format parsed = Some f" using parse fmt by (simp add: parse_format)
  have sel: "selectedFormat config parsed = None" by (rule selectedFormat_disallowed[OF pf dis])
  have ct: "contentType (assembleResult (selectedFormat config parsed) out)
           = (if info_format out \<noteq> [] then formatToContentType (Some (info_format out))
              else ''application/octet-stream'')"
    by (simp add: sel assembleResult_def)
  have rk: "requestKey config env input
           = map_option (\<lambda>u. JSON_stringify (keyProperties config u parsed)) (sourceIdentity env parsed)"
    using parse by (simp add: requestKey_def cacheKey_def)
  have kf: "(''f'', Some (JString f)) \<in> set (keyProperties config u parsed)"
    using pf by (simp add: keyProperties_def)
  show ?thesis
    by (intro conjI sel sharpPipeline_disallowed[OF sel] transformAndStore_disallowed[OF sel]
        process_no_cache_disallowed[OF parse sel] ct rk kf)
qed

text \<open>
  Witness for C10: \<^verbatim>\<open>jpeg\<close> requested where only \<^verbatim>\<open>webp\<close> is allowed; the engine's PNG
  output gives the content type, and the key holds \<^verbatim>\<open>"f":"jpeg"\<close>.
\<close>

theorem disallowed_format_skipped_witness:
  \<open>process (emptyConfig\<lparr>formats := Some [''webp'']\<rparr>) None (exampleEnv False)
       (emptyInput\<lparr>buffer := Some [1, 2, 3], format := Some ''jpeg''\<rparr>) (emptyWorld ())
     = (Inr exampleResult, \<lparr>cacheState = (), fetchCalls = [], sharpCalls = [([1, 2, 3], [])]\<rparr>)
   \<and> process (emptyConfig\<lparr>formats := Some [''webp'']\<rparr>) None (exampleEnv False)
       (emptyInput\<lparr>buffer := Some [1, 2, 3]\<rparr>) (emptyWorld ())
     = (Inr exampleResult, \<lparr>cacheState = (), fetchCalls = [], sharpCalls = [([1, 2, 3], [])]\<rparr>)
   \<and> contentType exampleResult = ''image/png''
   \<and> requestKey (emptyConfig\<lparr>formats := Some [''webp'']\<rparr>) (exampleEnv False)
       (emptyInput\<lparr>buffer := Some [1, 2, 3], format := Some ''jpeg''\<rparr>)
     = Some ''{"u":"buffer","fit":"cover","f":"jpeg","q":80}''\<close>
proof -
  let ?config = "emptyConfig\<lparr>formats := Some [''webp'']\<rparr>"
  let ?input = "emptyInput\<lparr>buffer := Some [1, 2, 3], format := Some ''jpeg''\<rparr>"
  let ?parsed = "emptyInput\<lparr>format := Some ''jpeg'', fit := Some ''cover''\<rparr>"
  have parse: "querySchema_parse (exampleEnv False) ?input = Inr ?parsed"
    by (simp add: schema_defs example_defs)
  have fmt: "format ?input = Some ''jpeg''" by simp
  have dis: "''jpeg'' \<notin> allowedFormats ?config" by (simp add: allowedFormats_def emptyConfig_def)
  have plain: "process ?config None (exampleEnv False) (?input\<lparr>format := None\<rparr>) (emptyWorld ())
      = (Inr exampleResult, \<lparr>cacheState = (), fetchCalls = [], sharpCalls = [([1, 2, 3], [])]\<rparr>)"
    by (simp add: process_defs json_defs example_defs exampleResult_def)
  have same: "?input\<lparr>format := None\<rparr> = emptyInput\<lparr>buffer := Some [1, 2, 3]\<rparr>"
    by (simp add: emptyInput_def)
  have si: "sourceIdentity (exampleEnv False) ?parsed = Some ''buffer''"
    by (simp add: sourceIdentity_def emptyInput_def)
  have js: \<open>JSON_stringify (keyProperties ?config ''buffer'' ?parsed)
      = ''{"u":"buffer","fit":"cover","f":"jpeg","q":80}''\<close>
    by (simp add: key_defs json_defs example_defs)
  have ct: "contentType exampleResult = ''image/png''" by (simp add: exampleResult_def)
  note t = disallowed_format_skipped[OF parse fmt dis, where world = "emptyWorld ()"]
  from t have 1: "process ?config None (exampleEnv False) ?input (emptyWorld ())
      = process ?config None (exampleEnv False) (?input\<lparr>format := None\<rparr>) (emptyWorld ())"
    by blast
  from t have 2: "requestKey ?config (exampleEnv False) ?input
      = map_option (\<lambda>u. JSON_stringify (keyProperties ?config u ?parsed)) (sourceIdentity (exampleEnv False) ?parsed)"
    by blast
  from 1 plain have a: "process ?config None (exampleEnv False) ?input (emptyWorld ())
      = (Inr exampleResult, \<lparr>cacheState = (), fetchCalls = [], sharpCalls = [([1, 2, 3], [])]\<rparr>)"
    by (simp only:)
  from plain same have b: "process ?config None (exampleEnv False) (emptyInput\<lparr>buffer := Some [1, 2, 3]\<rparr>) (emptyWorld ())
      = (Inr exampleResult, \<lparr>cacheState = (), fetchCalls = [], sharpCalls = [([1, 2, 3], [])]\<rparr>)"
    by (simp only:)
  from 2 si js have c: \<open>requestKey ?config (exampleEnv False) ?input
      = Some ''{"u":"buffer","fit":"cover","f":"jpeg","q":80}''\<close>
    by (simp only: option.map)
  from a b ct c show ?thesis by (simp only: simp_thms)
qed

end
